theory Spec2Isabelle
  imports Main "HOL-Library.Word" "HOL-Library.Signed_Division"
begin

section \<open>The tablet server's query executor (go/vt/tabletserver/query\_executor.go)\<close>

text \<open>
  A shallow embedding of \<^verbatim>\<open>QueryExecutor\<close>. Every method becomes a function from the
  executor state to an outcome and the new state. A Go panic is the outcome \<open>Inl\<close>, a
  normal return is \<open>Inr\<close>; a deferred call is run on both. Calls that leave the file
  (pools, transaction pool, backend connection, consolidator, row cache, statistics) are
  recorded, in program order, in the \<open>trace\<close> of the state, and what they answer is taken
  from an environment that may look at the whole trace so far, so nothing is assumed about
  how the collaborators behave from one call to the next. Durations and clock readings are
  left out. \<^verbatim>\<open>Stream\<close> and \<^verbatim>\<open>recheckLater\<close> (which runs on a goroutine of its own after the
  request) are not embedded.
\<close>

subsection \<open>Data model\<close>

type_synonym int64 = "64 word"     \<comment> \<open>read as signed with \<open>sint\<close>\<close>
type_synonym uint64 = "64 word"
type_synonym float64 = "64 word"   \<comment> \<open>the IEEE-754 bit pattern; arithmetic on it is a parameter\<close>

text \<open>\<^verbatim>\<open>sqltypes.Value\<close>, as far as the executor looks at it: \<^verbatim>\<open>IsNull()\<close> and \<^verbatim>\<open>String()\<close>.\<close>

datatype sql_value = SqlNull | SqlValue string

fun IsNull :: "sql_value \<Rightarrow> bool" where
  "IsNull SqlNull = True"
| "IsNull (SqlValue _) = False"

fun String_of :: "sql_value \<Rightarrow> string" where
  "String_of SqlNull = []"
| "String_of (SqlValue raw) = raw"

type_synonym row = "sql_value list"

text \<open>The values of \<^verbatim>\<open>map[string]interface{}\<close> that the executor itself stores, and
  two shapes for what the client sent.\<close>

datatype bind_value =
    BVInt64 int64
  | BVString string
  | BVRows "row list"
  | TupleEqualityList "string list" "row list"

type_synonym bindvars = "string \<Rightarrow> bind_value option"

datatype field = Field string int

record query_result =
  Fields :: "field list option"
  RowsAffected :: uint64
  InsertId :: uint64
  Rows :: "row list"

definition empty_result :: query_result where
  "empty_result = \<lparr>Fields = None, RowsAffected = 0, InsertId = 0, Rows = []\<rparr>"

record rcresult =
  Row :: "row option"
  Cas :: uint64

datatype err_kind = ErrFail | ErrRetry | ErrFatal | ErrTxPoolFull

text \<open>Go \<^verbatim>\<open>error\<close> values: the pool's sentinel, a \<^verbatim>\<open>*TabletError\<close> (kind and message), or
  any other error, kept by its text.\<close>

datatype go_error = ErrConnPoolClosed | TabletError err_kind string | GoError string

text \<open>What a \<^verbatim>\<open>panic\<close> carries: an error, a plain string, or a run-time error of Go
  itself (nil dereference, index or slice bounds).\<close>

datatype panic_value = PanicError go_error | PanicString string | PanicRuntime string

datatype plan_id =
    PLAN_PASS_SELECT | PLAN_PASS_DML | PLAN_PK_IN | PLAN_SELECT_SUBQUERY
  | PLAN_DML_PK | PLAN_DML_SUBQUERY | PLAN_INSERT_PK | PLAN_INSERT_SUBQUERY
  | PLAN_SET | PLAN_DDL | PLAN_OTHER

datatype reason = REASON_DEFAULT | REASON_LOCK | REASON_OTHER string

datatype cache_type = CACHE_NONE | CACHE_RW | CACHE_R

datatype index = Index (Columns: "string list")

record table_info =
  Name :: string
  CacheType :: cache_type
  PKColumns :: "int list"
  Indexes :: "index list"

text \<open>Templates and planner expressions are opaque here: only \<^verbatim>\<open>GenerateQuery\<close> and the
  row builders, which are parameters, look inside them.\<close>

datatype parsed_query = ParsedQuery string
datatype plan_expr = PlanExpr string
datatype rules = QueryRules string

datatype set_value = SVInt64 int64 | SVFloat64 float64 | SVOther string

datatype action = QR_NONE | QR_FAIL | QR_FAIL_RETRY

record exec_plan =
  PlanId :: plan_id
  Reason :: reason
  TableName :: string
  TableInfo :: "table_info option"
  plan_Fields :: "field list option"
  FullQuery :: parsed_query
  OuterQuery :: parsed_query
  Subquery :: parsed_query
  ColumnNumbers :: "int list"
  PKValues :: plan_expr
  SecondaryPKValues :: plan_expr
  SubqueryPKColumns :: "int list"
  SetKey :: string
  SetValue :: set_value
  Limit :: plan_expr
  Rules :: rules
  Authorized :: "(string \<Rightarrow> bool) option"   \<comment> \<open>an ACL, by its \<^verbatim>\<open>IsMember\<close>\<close>

record call_info =
  RemoteAddr :: string
  Username :: string

text \<open>\<^verbatim>\<open>context.Context\<close>: the background context, or a request's context with the call
  info \<^verbatim>\<open>callinfo.FromContext\<close> finds in it, if any.\<close>

datatype ctx = Background | RequestCtx "call_info option"

record ddl_plan =
  Action :: string
  ddl_TableName :: string
  NewName :: string

datatype pool_id = ConnPool | StreamConnPool | TxPool

datatype conn = Conn (conn_pool: pool_id) (conn_id: nat)

datatype invalidator = DirtyKeys conn string

datatype query_source = QuerySourceRowcache | QuerySourceConsolidator

text \<open>The calls that leave the file. \<open>EvGet\<close> is a connection handed out by
  \<^verbatim>\<open>pool.Get\<close> or \<^verbatim>\<open>txPool.Get\<close>; \<open>EvExec\<close> is \<^verbatim>\<open>conn.Exec(ctx, sql, maxrows, wantfields)\<close>
  with what it answered.\<close>

datatype event =
    EvGet conn
  | EvRecycle conn
  | EvExec conn string int bool "go_error + query_result"
  | EvBegin int64
  | EvCommit int64
  | EvRollback int64
  | EvSafeCommit int64
  | EvRecordQuery conn string
  | EvDirtyKeys conn string
  | EvDelete invalidator string
  | EvCacheGet string "string list"
  | EvCacheSet string string row uint64
  | EvCreate string bool
  | EvBroadcast string
  | EvWait string
  | EvRand int64
  | EvLaunchRecheck rcresult "row option" row
  | EvDropTable string
  | EvCreateOrUpdateTable string
  | EvSetCapacity pool_id int
  | EvSetIdleTimeout pool_id int64
  | EvSetTimeout int64
  | EvSetPoolTimeout int64
  | EvSetReloadTime int64
  | EvSetQueryCacheSize int
  | EvQueryStats string
  | EvPlanAddStats int64 int64 int64
  | EvResultStats int64
  | EvSpotCheckCount
  | EvWaitStats string
  | EvTableCounters string int64 int64 int64
  | EvLogError string

record sql_query_stats =
  OriginalSql :: string
  BindVariables :: nat
  TransactionID :: int64
  PlanType :: string
  stats_RowsAffected :: int
  stats_Rows :: "row list"
  RewrittenSql :: "string list"
  CacheHits :: int64
  CacheAbsent :: int64
  CacheMisses :: int64
  QuerySources :: "query_source set"

text \<open>The state a request runs in: the trace, the store of bind-variable maps (Go maps
  are references: \<^verbatim>\<open>qre.bindVars\<close> and \<^verbatim>\<open>logStats.BindVariables\<close> name the same map), the
  atomic tunables of the query engine, and the request's log record.\<close>

record state =
  trace :: "event list"
  bvstore :: "nat \<Rightarrow> bindvars"
  next_ref :: nat
  maxResultSize :: int64
  maxDMLRows :: int64
  streamBufferSize :: int64
  spotCheckFreq :: int64
  strictMode :: int64
  queryTimeout :: int64
  logStats :: sql_query_stats

record query_executor =
  query :: string
  bindVars :: nat
  transactionID :: int64
  plan :: exec_plan
  ctx :: ctx


subsection \<open>The collaborators, as parameters\<close>

text \<open>
  None of these is defined in the file. The first group are functions of their arguments
  (template expansion, the row and key builders of the package, the planner's DDL parser,
  the rule matcher, formatting helpers and constants). The second group are the calls
  whose answer depends on the world: each takes the trace so far. An answer \<open>Inl\<close> is the
  error the Go function returns, or the panic it raises where it returns no error:
  \<^verbatim>\<open>txPool.Begin\<close>, \<^verbatim>\<open>txPool.Get\<close> and \<^verbatim>\<open>qe.Commit\<close> report failure by panicking;
  \<^verbatim>\<open>txPool.Rollback\<close> and \<^verbatim>\<open>txPool.SafeCommit\<close> are taken to return.
\<close>

record env =
  GenerateQuery :: "parsed_query \<Rightarrow> bindvars \<Rightarrow> go_error + string"
  restoreTrailing :: "string \<Rightarrow> bindvars \<Rightarrow> string"
  buildValueList :: "table_info option \<Rightarrow> plan_expr \<Rightarrow> bindvars \<Rightarrow> go_error + row list"
  buildSecondaryList ::
    "table_info option \<Rightarrow> row list \<Rightarrow> plan_expr \<Rightarrow> bindvars \<Rightarrow> go_error + row list option"
  buildStreamComment :: "table_info option \<Rightarrow> row list \<Rightarrow> row list option \<Rightarrow> string option"
  buildKey :: "row \<Rightarrow> string"
  applyFilter :: "int list \<Rightarrow> row \<Rightarrow> row"
  applyFilterWithPKDefaults :: "table_info option \<Rightarrow> int list \<Rightarrow> row \<Rightarrow> row"
  validateRow :: "table_info option \<Rightarrow> int list \<Rightarrow> row \<Rightarrow> go_error option"
  getLimit :: "plan_expr \<Rightarrow> bindvars \<Rightarrow> panic_value + int64"
  DDLParse :: "string \<Rightarrow> ddl_plan"
  getAction :: "rules \<Rightarrow> string \<Rightarrow> string \<Rightarrow> bindvars \<Rightarrow> action \<times> string"
  NewTabletErrorSql :: "err_kind \<Rightarrow> go_error \<Rightarrow> go_error"
  Error :: "go_error \<Rightarrow> string"                 \<comment> \<open>\<^verbatim>\<open>err.Error()\<close>, for \<^verbatim>\<open>%s\<close>\<close>
  PlanId_String :: "plan_id \<Rightarrow> string"
  quote :: "string \<Rightarrow> string"                   \<comment> \<open>\<^verbatim>\<open>%q\<close>\<close>
  spotCheckMultiplier :: int64
  float64_of_int64 :: "int64 \<Rightarrow> float64"
  duration_of_seconds :: "float64 \<Rightarrow> int64"      \<comment> \<open>\<^verbatim>\<open>time.Duration(f * 1e9)\<close>\<close>
  spot_check_freq_of :: "float64 \<Rightarrow> int64"       \<comment> \<open>\<^verbatim>\<open>int64(f * spotCheckMultiplier)\<close>\<close>
  strictTableAcl :: bool
  enableAutoCommit :: bool
  pool_Get :: "event list \<Rightarrow> pool_id \<Rightarrow> go_error + nat"
  txPool_Begin :: "event list \<Rightarrow> panic_value + int64"
  txPool_Get :: "event list \<Rightarrow> int64 \<Rightarrow> panic_value + nat"
  qe_Commit :: "event list \<Rightarrow> int64 \<Rightarrow> panic_value option"
  conn_Exec :: "event list \<Rightarrow> conn \<Rightarrow> string \<Rightarrow> int \<Rightarrow> bool \<Rightarrow> go_error + query_result"
  consolidator_Create :: "event list \<Rightarrow> string \<Rightarrow> bool"
  consolidator_Wait :: "event list \<Rightarrow> string \<Rightarrow> go_error + query_result"
  cache_Get :: "event list \<Rightarrow> string \<Rightarrow> string list \<Rightarrow> (string \<Rightarrow> rcresult option)"
  Rand :: "event list \<Rightarrow> int64"

subsection \<open>Small helpers\<close>

type_synonym 'a res = "(panic_value + 'a) \<times> state"

definition emit :: "event \<Rightarrow> state \<Rightarrow> state" where
  "emit e s = s\<lparr>trace := trace s @ [e]\<rparr>"

text \<open>\<^verbatim>\<open>defer f()\<close> in front of the rest of a function body: \<open>f\<close> runs when the body
  returns and when it panics.\<close>

definition deferred :: "(state \<Rightarrow> state) \<Rightarrow> (state \<Rightarrow> 'a res) \<Rightarrow> state \<Rightarrow> 'a res" where
  "deferred f body s = (case body s of (r, s') \<Rightarrow> (r, f s'))"

text \<open>The same in front of a body that may not come back (see \<open>execDMLPKRows_loop\<close>).\<close>

definition deferred_opt ::
  "(state \<Rightarrow> state) \<Rightarrow> (state \<Rightarrow> 'a res option) \<Rightarrow> state \<Rightarrow> 'a res option" where
  "deferred_opt f body s =
     (case body s of None \<Rightarrow> None | Some (r, s') \<Rightarrow> Some (r, f s'))"

definition NewTabletError :: "err_kind \<Rightarrow> string \<Rightarrow> panic_value" where
  "NewTabletError kind msg = PanicError (TabletError kind msg)"

text \<open>\<^verbatim>\<open>%v\<close> of an integer: its decimal digits.\<close>

fun nat_digits :: "nat \<Rightarrow> string" where
  "nat_digits n =
     (if n < 10 then [''0123456789'' ! n]
      else nat_digits (n div 10) @ [''0123456789'' ! (n mod 10)])"

declare nat_digits.simps [simp del]

definition show_int :: "int \<Rightarrow> string" where
  "show_int i = (if i < 0 then CHR ''-'' # nat_digits (nat (- i)) else nat_digits (nat i))"

definition AddRewrittenSql :: "string \<Rightarrow> state \<Rightarrow> state" where
  "AddRewrittenSql sql s =
     s\<lparr>logStats := (logStats s)\<lparr>RewrittenSql := RewrittenSql (logStats s) @ [sql]\<rparr>\<rparr>"

definition add_QuerySource :: "query_source \<Rightarrow> state \<Rightarrow> state" where
  "add_QuerySource src s =
     s\<lparr>logStats := (logStats s)\<lparr>QuerySources := insert src (QuerySources (logStats s))\<rparr>\<rparr>"

text \<open>\<^verbatim>\<open>m[k] = v\<close> on the map behind a reference, and a fresh map literal.\<close>

definition bv_set :: "nat \<Rightarrow> string \<Rightarrow> bind_value \<Rightarrow> state \<Rightarrow> state" where
  "bv_set r k v s = s\<lparr>bvstore := (bvstore s)(r := (bvstore s r)(k \<mapsto> v))\<rparr>"

definition bv_new :: "bindvars \<Rightarrow> state \<Rightarrow> nat \<times> state" where
  "bv_new m s =
     (next_ref s, s\<lparr>bvstore := (bvstore s)(next_ref s := m), next_ref := Suc (next_ref s)\<rparr>)"

text \<open>\<^verbatim>\<open>qre.plan.TableInfo.Indexes[0].Columns\<close>: a nil table or an empty index list is a
  run-time panic.\<close>

definition index0_Columns :: "exec_plan \<Rightarrow> panic_value + string list" where
  "index0_Columns p =
     (case TableInfo p of
        None \<Rightarrow> Inl (PanicRuntime ''invalid memory address or nil pointer dereference'')
      | Some ti \<Rightarrow>
          (case Indexes ti of
             [] \<Rightarrow> Inl (PanicRuntime ''index out of range'')
           | ix # _ \<Rightarrow> Inr (Columns ix)))"

subsection \<open>Final SQL and the backend call\<close>

definition generateFinalSql ::
  "env \<Rightarrow> parsed_query \<Rightarrow> nat \<Rightarrow> string option \<Rightarrow> state \<Rightarrow> string res" where
  "generateFinalSql env parsedQuery bvars bsc s =
     (let s1 = bv_set bvars ''#maxLimit'' (BVInt64 (maxResultSize s + 1)) s in
      case GenerateQuery env parsedQuery (bvstore s1 bvars) of
        Inl err \<Rightarrow> (Inl (NewTabletError ErrFail (Error env err)), s1)
      | Inr sql \<Rightarrow>
          (let sql1 = (case bsc of None \<Rightarrow> sql | Some bsc \<Rightarrow> sql @ bsc);
               sql2 = restoreTrailing env sql1 (bvstore s1 bvars)
           in (Inr sql2, s1)))"

definition execSQLNoPanic ::
  "env \<Rightarrow> conn \<Rightarrow> string \<Rightarrow> bool \<Rightarrow> state \<Rightarrow> (go_error + query_result) \<times> state" where
  "execSQLNoPanic env conn sql wantfields s =
     (let r = conn_Exec env (trace s) conn sql (sint (maxResultSize s)) wantfields;
          s1 = emit (EvExec conn sql (sint (maxResultSize s)) wantfields r) s
      in (r, AddRewrittenSql sql s1))"

definition execSQL :: "env \<Rightarrow> conn \<Rightarrow> string \<Rightarrow> bool \<Rightarrow> state \<Rightarrow> query_result res" where
  "execSQL env conn sql wantfields s =
     (case execSQLNoPanic env conn sql True s of
        (Inl err, s') \<Rightarrow> (Inl (PanicError err), s')
      | (Inr result, s') \<Rightarrow> (Inr result, s'))"

definition directFetch ::
  "env \<Rightarrow> conn \<Rightarrow> parsed_query \<Rightarrow> nat \<Rightarrow> string option \<Rightarrow> state \<Rightarrow> query_result res" where
  "directFetch env conn parsedQuery bvars bsc s =
     (case generateFinalSql env parsedQuery bvars bsc s of
        (Inl p, s') \<Rightarrow> (Inl p, s')
      | (Inr sql, s') \<Rightarrow> execSQL env conn sql False s')"

definition fullFetch ::
  "env \<Rightarrow> conn \<Rightarrow> parsed_query \<Rightarrow> nat \<Rightarrow> string option \<Rightarrow> state \<Rightarrow> query_result res" where
  "fullFetch env conn parsedQuery bvars bsc s =
     (case generateFinalSql env parsedQuery bvars bsc s of
        (Inl p, s') \<Rightarrow> (Inl p, s')
      | (Inr sql, s') \<Rightarrow> execSQL env conn sql True s')"

definition getConn :: "env \<Rightarrow> pool_id \<Rightarrow> state \<Rightarrow> conn res" where
  "getConn env pool s =
     (case pool_Get env (trace s) pool of
        Inr c \<Rightarrow> (Inr (Conn pool c), emit (EvGet (Conn pool c)) s)
      | Inl err \<Rightarrow>
          if err = ErrConnPoolClosed then (Inl (PanicError err), s)
          else (Inl (PanicError (NewTabletErrorSql env ErrFatal err)), s))"

text \<open>\<^verbatim>\<open>qFetch\<close>: the creator of the consolidator entry runs the query on a pooled
  connection; the two deferred calls (\<^verbatim>\<open>conn.Recycle\<close>, then \<^verbatim>\<open>q.Broadcast\<close>) run after
  the check of \<^verbatim>\<open>q.Err\<close>. A follower waits and reads what the creator stored.\<close>

definition qFetch :: "env \<Rightarrow> parsed_query \<Rightarrow> nat \<Rightarrow> state \<Rightarrow> query_result res" where
  "qFetch env parsedQuery bvars s =
     (case generateFinalSql env parsedQuery bvars None s of
        (Inl p, s1) \<Rightarrow> (Inl p, s1)
      | (Inr sql, s1) \<Rightarrow>
          (let ok = consolidator_Create env (trace s1) sql;
               s2 = emit (EvCreate sql ok) s1
           in if ok then
                deferred (emit (EvBroadcast sql))
                  (\<lambda>s3. case pool_Get env (trace s3) ConnPool of
                           Inl err \<Rightarrow> (Inl (PanicError (NewTabletErrorSql env ErrFatal err)), s3)
                         | Inr c \<Rightarrow>
                             deferred (emit (EvRecycle (Conn ConnPool c)))
                               (\<lambda>s4. case execSQLNoPanic env (Conn ConnPool c) sql False s4 of
                                        (Inl err, s5) \<Rightarrow> (Inl (PanicError err), s5)
                                      | (Inr result, s5) \<Rightarrow> (Inr result, s5))
                               (emit (EvGet (Conn ConnPool c)) s3))
                  s2
              else
                (let s3 = add_QuerySource QuerySourceConsolidator s2;
                     r = consolidator_Wait env (trace s3) sql;
                     s4 = emit (EvWaitStats ''Consolidations'') (emit (EvWait sql) s3)
                 in case r of
                      Inl err \<Rightarrow> (Inl (PanicError err), s4)
                    | Inr result \<Rightarrow> (Inr result, s4))))"


subsection \<open>The policy gate\<close>

definition checkPermissions :: "env \<Rightarrow> query_executor \<Rightarrow> state \<Rightarrow> unit res" where
  "checkPermissions env qre s =
     (if ctx qre = Background then (Inr (), s)
      else
        (let ci = (case ctx qre of RequestCtx (Some info) \<Rightarrow> Some info | _ \<Rightarrow> None);
             remoteAddr = (case ci of Some info \<Rightarrow> RemoteAddr info | None \<Rightarrow> []);
             username = (case ci of Some info \<Rightarrow> Username info | None \<Rightarrow> [])
         in case getAction env (Rules (plan qre)) remoteAddr username (bvstore s (bindVars qre)) of
              (QR_FAIL, desc) \<Rightarrow>
                (Inl (NewTabletError ErrFail (''Query disallowed due to rule: '' @ desc)), s)
            | (QR_FAIL_RETRY, desc) \<Rightarrow>
                (Inl (NewTabletError ErrRetry (''Query disallowed due to rule: '' @ desc)), s)
            | (QR_NONE, desc) \<Rightarrow>
                (case Authorized (plan qre) of
                   None \<Rightarrow> (Inr (), s)
                 | Some isMember \<Rightarrow>
                     if isMember username then (Inr (), s)
                     else
                       (let errStr = ''table acl error: '' @ quote env username @ '' cannot run ''
                              @ PlanId_String env (PlanId (plan qre)) @ '' on table ''
                              @ quote env (TableName (plan qre))
                        in if strictTableAcl env then (Inl (NewTabletError ErrFail errStr), s)
                           else (Inr (), emit (EvLogError errStr) s)))))"

subsection \<open>DDL\<close>

definition execDDL :: "env \<Rightarrow> query_executor \<Rightarrow> state \<Rightarrow> query_result res" where
  "execDDL env qre s =
     (let ddlPlan = DDLParse env (query qre) in
      if Action ddlPlan = [] then (Inl (NewTabletError ErrFail ''DDL is not understood''), s)
      else
        (case txPool_Begin env (trace s) of
           Inl p \<Rightarrow> (Inl p, s)
         | Inr txid \<Rightarrow>
             deferred (emit (EvSafeCommit txid))
               (\<lambda>s1. case txPool_Get env (trace s1) txid of
                        Inl p \<Rightarrow> (Inl p, s1)
                      | Inr c \<Rightarrow>
                          deferred (emit (EvRecycle (Conn TxPool c)))
                            (\<lambda>s2. case execSQL env (Conn TxPool c) (query qre) False s2 of
                                     (Inl p, s3) \<Rightarrow> (Inl p, s3)
                                   | (Inr result, s3) \<Rightarrow>
                                       (let s4 = (if ddl_TableName ddlPlan \<noteq> []
                                                     \<and> ddl_TableName ddlPlan \<noteq> NewName ddlPlan
                                                  then emit (EvDropTable (ddl_TableName ddlPlan)) s3
                                                  else s3);
                                            s5 = (if NewName ddlPlan \<noteq> []
                                                  then emit (EvCreateOrUpdateTable (NewName ddlPlan)) s4
                                                  else s4)
                                        in (Inr result, s5)))
                            (emit (EvGet (Conn TxPool c)) s1))
               (emit (EvBegin txid) s)))"

subsection \<open>Row-cache read-through\<close>

fun rowsAreEqual_loop :: "row \<Rightarrow> row \<Rightarrow> bool" where
  "rowsAreEqual_loop (a # as) (b # bs) =
     (if IsNull a \<and> IsNull b then rowsAreEqual_loop as bs
      else if (IsNull a \<and> \<not> IsNull b) \<or> (\<not> IsNull a \<and> IsNull b) \<or> String_of a \<noteq> String_of b
      then False
      else rowsAreEqual_loop as bs)"
| "rowsAreEqual_loop _ _ = True"

definition rowsAreEqual :: "row \<Rightarrow> row \<Rightarrow> bool" where
  "rowsAreEqual row1 row2 =
     (if length row1 \<noteq> length row2 then False else rowsAreEqual_loop row1 row2)"

text \<open>\<^verbatim>\<open>Rand() % spotCheckMultiplier < spotCheckFreq\<close>: Go's remainder truncates towards
  zero; the multiplier is a non-zero constant in the package.\<close>

definition mustVerify :: "env \<Rightarrow> state \<Rightarrow> bool \<times> state" where
  "mustVerify env s =
     (let r = Rand env (trace s)
      in (sint r smod sint (spotCheckMultiplier env) < sint (spotCheckFreq s), emit (EvRand r) s))"

text \<open>A nil slice reads as the empty one.\<close>

definition row_of :: "row option \<Rightarrow> row" where
  "row_of r = (case r of None \<Rightarrow> [] | Some cells \<Rightarrow> cells)"

text \<open>\<^verbatim>\<open>spotCheck\<close> compares the cached row with the backend's; on a difference it launches
  \<^verbatim>\<open>recheckLater\<close>, which runs on its own goroutine after the request and is not followed
  here beyond the launch.\<close>

definition spotCheck :: "env \<Rightarrow> query_executor \<Rightarrow> rcresult \<Rightarrow> row \<Rightarrow> state \<Rightarrow> unit res" where
  "spotCheck env qre rcres pk s =
     (let s1 = emit EvSpotCheckCount s in
      case index0_Columns (plan qre) of
        Inl p \<Rightarrow> (Inl p, s1)
      | Inr cols \<Rightarrow>
          (case bv_new [''#pk'' \<mapsto> TupleEqualityList cols [pk]] s1 of
             (bv, s2) \<Rightarrow>
               (case qFetch env (OuterQuery (plan qre)) bv s2 of
                  (Inl p, s3) \<Rightarrow> (Inl p, s3)
                | (Inr resultFromdb, s3) \<Rightarrow>
                    (let dbrow = (case Rows resultFromdb of [] \<Rightarrow> None | r # _ \<Rightarrow> Some r)
                     in if dbrow = None \<or> \<not> rowsAreEqual (row_of (Row rcres)) (row_of dbrow)
                        then (Inr (), emit (EvLaunchRecheck rcres dbrow pk) s3)
                        else (Inr (), s3)))))"

text \<open>\<^verbatim>\<open>rcresults[key]\<close>: a key the cache did not answer reads as the zero \<^verbatim>\<open>RCResult\<close>.\<close>

definition rc_lookup :: "(string \<Rightarrow> rcresult option) \<Rightarrow> string \<Rightarrow> rcresult" where
  "rc_lookup m k = (case m k of None \<Rightarrow> \<lparr>Row = None, Cas = 0\<rparr> | Some r \<Rightarrow> r)"

text \<open>The loop over \<^verbatim>\<open>pkRows\<close> (with \<^verbatim>\<open>keys[i]\<close> beside each row): hits go to \<^verbatim>\<open>rows\<close>,
  the others to \<^verbatim>\<open>missingRows\<close>.\<close>

fun fetchMulti_hits ::
  "env \<Rightarrow> query_executor \<Rightarrow> (string \<Rightarrow> rcresult option) \<Rightarrow> (row \<times> string) list
     \<Rightarrow> row list \<Rightarrow> row list \<Rightarrow> int64 \<Rightarrow> state \<Rightarrow> (row list \<times> row list \<times> int64) res" where
  "fetchMulti_hits env qre rcresults [] rows missingRows hits s =
     (Inr (rows, missingRows, hits), s)"
| "fetchMulti_hits env qre rcresults ((pk, key) # rest) rows missingRows hits s =
     (let rcresult = rc_lookup rcresults key in
      case Row rcresult of
        Some cached \<Rightarrow>
          (case mustVerify env s of
             (verify, s1) \<Rightarrow>
               (case (if verify then spotCheck env qre rcresult pk s1 else (Inr (), s1)) of
                  (Inl p, s2) \<Rightarrow> (Inl p, s2)
                | (Inr _, s2) \<Rightarrow>
                    fetchMulti_hits env qre rcresults rest
                      (rows @ [applyFilter env (ColumnNumbers (plan qre)) cached])
                      missingRows (hits + 1) s2))
      | None \<Rightarrow> fetchMulti_hits env qre rcresults rest rows (missingRows @ [pk]) hits s)"

text \<open>The loop over the rows the backend returned for the missing keys.\<close>

fun fetchMulti_fill ::
  "env \<Rightarrow> query_executor \<Rightarrow> table_info \<Rightarrow> (string \<Rightarrow> rcresult option) \<Rightarrow> row list
     \<Rightarrow> row list \<Rightarrow> state \<Rightarrow> row list \<times> state" where
  "fetchMulti_fill env qre tableInfo rcresults [] rows s = (rows, s)"
| "fetchMulti_fill env qre tableInfo rcresults (dbrow # rest) rows s =
     (let key = buildKey env (applyFilter env (PKColumns tableInfo) dbrow)
      in fetchMulti_fill env qre tableInfo rcresults rest
           (rows @ [applyFilter env (ColumnNumbers (plan qre)) dbrow])
           (emit (EvCacheSet (Name tableInfo) key dbrow (Cas (rc_lookup rcresults key))) s))"

text \<open>Lines 256 to 302 of \<^verbatim>\<open>fetchMulti\<close>: the rows assembled from cache and backend, before
  the limit is applied.\<close>

definition fetchMulti_rows :: "env \<Rightarrow> query_executor \<Rightarrow> row list \<Rightarrow> state \<Rightarrow> row list res" where
  "fetchMulti_rows env qre pkRows s =
     (case TableInfo (plan qre) of
        None \<Rightarrow> (Inl (PanicRuntime ''invalid memory address or nil pointer dereference''), s)
      | Some tableInfo \<Rightarrow>
          (let keys = map (buildKey env) pkRows;
               rcresults = cache_Get env (trace s) (Name tableInfo) keys;
               s1 = emit (EvCacheGet (Name tableInfo) keys) s
           in case fetchMulti_hits env qre rcresults (zip pkRows keys) [] [] 0 s1 of
                (Inl p, s2) \<Rightarrow> (Inl p, s2)
              | (Inr (rows, missingRows, hits), s2) \<Rightarrow>
                  (case (if length missingRows \<noteq> 0 then
                           (case index0_Columns (plan qre) of
                              Inl p \<Rightarrow> (Inl p, s2)
                            | Inr cols \<Rightarrow>
                                (case bv_new [''#pk'' \<mapsto> TupleEqualityList cols missingRows] s2 of
                                   (bv, s3) \<Rightarrow>
                                     (case qFetch env (OuterQuery (plan qre)) bv s3 of
                                        (Inl p, s4) \<Rightarrow> (Inl p, s4)
                                      | (Inr resultFromdb, s4) \<Rightarrow>
                                          (let misses = of_nat (length (Rows resultFromdb));
                                               absent = of_nat (length pkRows) - hits - misses
                                           in case fetchMulti_fill env qre tableInfo rcresults
                                                     (Rows resultFromdb) rows s4 of
                                                (rows', s5) \<Rightarrow> (Inr (rows', absent, misses), s5)))))
                         else (Inr (rows, 0, 0), s2)) of
                     (Inl p, s6) \<Rightarrow> (Inl p, s6)
                   | (Inr (rows', absent, misses), s6) \<Rightarrow>
                       (let s7 = s6\<lparr>logStats := (logStats s6)
                                     \<lparr>CacheHits := hits, CacheAbsent := absent, CacheMisses := misses\<rparr>\<rparr>;
                            s8 = add_QuerySource QuerySourceRowcache s7;
                            s9 = emit (EvTableCounters (Name tableInfo) hits absent misses) s8
                        in (Inr rows', s9)))))"

definition fetchMulti ::
  "env \<Rightarrow> query_executor \<Rightarrow> row list \<Rightarrow> int64 \<Rightarrow> state \<Rightarrow> query_result res" where
  "fetchMulti env qre pkRows limit s =
     (case plan_Fields (plan qre) of
        None \<Rightarrow> (Inl (PanicString ''unexpected''), s)
      | Some flds \<Rightarrow>
          if length pkRows = 0 \<or> limit = 0
          then (Inr \<lparr>Fields = Some flds, RowsAffected = 0, InsertId = 0, Rows = []\<rparr>, s)
          else
            (case fetchMulti_rows env qre pkRows s of
               (Inl p, s') \<Rightarrow> (Inl p, s')
             | (Inr rows, s') \<Rightarrow>
                 (let result = \<lparr>Fields = Some flds, RowsAffected = of_nat (length rows),
                                InsertId = 0, Rows = rows\<rparr>
                  in if 0 < sint limit \<and> sint limit < int (length (Rows result))
                     then (Inr (result\<lparr>Rows := take (nat (sint limit)) (Rows result),
                                       RowsAffected := limit\<rparr>), s')
                     else (Inr result, s'))))"

definition execPKIN :: "env \<Rightarrow> query_executor \<Rightarrow> state \<Rightarrow> query_result res" where
  "execPKIN env qre s =
     (case buildValueList env (TableInfo (plan qre)) (PKValues (plan qre)) (bvstore s (bindVars qre)) of
        Inl err \<Rightarrow> (Inl (PanicError err), s)
      | Inr pkRows \<Rightarrow>
          (case getLimit env (Limit (plan qre)) (bvstore s (bindVars qre)) of
             Inl p \<Rightarrow> (Inl p, s)
           | Inr limit \<Rightarrow> fetchMulti env qre pkRows limit s))"

definition execSubquery :: "env \<Rightarrow> query_executor \<Rightarrow> state \<Rightarrow> query_result res" where
  "execSubquery env qre s =
     (case qFetch env (Subquery (plan qre)) (bindVars qre) s of
        (Inl p, s') \<Rightarrow> (Inl p, s')
      | (Inr innerResult, s') \<Rightarrow> fetchMulti env qre (Rows innerResult) (- 1) s')"


subsection \<open>Direct execution and inserts\<close>

definition execDirect :: "env \<Rightarrow> query_executor \<Rightarrow> conn \<Rightarrow> state \<Rightarrow> query_result res" where
  "execDirect env qre conn s =
     (case plan_Fields (plan qre) of
        Some flds \<Rightarrow>
          (case directFetch env conn (FullQuery (plan qre)) (bindVars qre) None s of
             (Inl p, s') \<Rightarrow> (Inl p, s')
           | (Inr result, s') \<Rightarrow> (Inr (result\<lparr>Fields := Some flds\<rparr>), s'))
      | None \<Rightarrow> fullFetch env conn (FullQuery (plan qre)) (bindVars qre) None s)"

definition execSelect :: "env \<Rightarrow> query_executor \<Rightarrow> state \<Rightarrow> query_result res" where
  "execSelect env qre s =
     (case plan_Fields (plan qre) of
        Some flds \<Rightarrow>
          (case qFetch env (FullQuery (plan qre)) (bindVars qre) s of
             (Inl p, s') \<Rightarrow> (Inl p, s')
           | (Inr result, s') \<Rightarrow> (Inr (result\<lparr>Fields := Some flds\<rparr>), s'))
      | None \<Rightarrow>
          (case getConn env ConnPool s of
             (Inl p, s') \<Rightarrow> (Inl p, s')
           | (Inr conn, s') \<Rightarrow>
               deferred (emit (EvRecycle conn))
                 (fullFetch env conn (FullQuery (plan qre)) (bindVars qre) None) s'))"

definition execInsertPKRows ::
  "env \<Rightarrow> query_executor \<Rightarrow> conn \<Rightarrow> row list \<Rightarrow> state \<Rightarrow> query_result res" where
  "execInsertPKRows env qre conn pkRows s =
     (case buildSecondaryList env (TableInfo (plan qre)) pkRows (SecondaryPKValues (plan qre))
             (bvstore s (bindVars qre)) of
        Inl err \<Rightarrow> (Inl (PanicError err), s)
      | Inr secondaryList \<Rightarrow>
          directFetch env conn (OuterQuery (plan qre)) (bindVars qre)
            (buildStreamComment env (TableInfo (plan qre)) pkRows secondaryList) s)"

definition execInsertPK :: "env \<Rightarrow> query_executor \<Rightarrow> conn \<Rightarrow> state \<Rightarrow> query_result res" where
  "execInsertPK env qre conn s =
     (case buildValueList env (TableInfo (plan qre)) (PKValues (plan qre)) (bvstore s (bindVars qre)) of
        Inl err \<Rightarrow> (Inl (PanicError err), s)
      | Inr pkRows \<Rightarrow> execInsertPKRows env qre conn pkRows s)"

definition execInsertSubquery ::
  "env \<Rightarrow> query_executor \<Rightarrow> conn \<Rightarrow> state \<Rightarrow> query_result res" where
  "execInsertSubquery env qre conn s =
     (case directFetch env conn (Subquery (plan qre)) (bindVars qre) None s of
        (Inl p, s1) \<Rightarrow> (Inl p, s1)
      | (Inr innerResult, s1) \<Rightarrow>
          (case Rows innerResult of
             [] \<Rightarrow> (Inr (empty_result\<lparr>RowsAffected := 0\<rparr>), s1)
           | innerRow0 # _ \<Rightarrow>
               if length (ColumnNumbers (plan qre)) \<noteq> length innerRow0
               then (Inl (NewTabletError ErrFail ''Subquery length does not match column list''), s1)
               else
                 (let pkRows = map (applyFilterWithPKDefaults env (TableInfo (plan qre))
                                      (SubqueryPKColumns (plan qre))) (Rows innerResult)
                  in case TableInfo (plan qre) of
                       None \<Rightarrow>
                         (Inl (PanicRuntime ''invalid memory address or nil pointer dereference''), s1)
                     | Some tableInfo \<Rightarrow>
                         (case validateRow env (TableInfo (plan qre)) (PKColumns tableInfo) (hd pkRows) of
                            Some err \<Rightarrow> (Inl (PanicError err), s1)
                          | None \<Rightarrow>
                              execInsertPKRows env qre conn pkRows
                                (bv_set (bindVars qre) ''#values'' (BVRows (Rows innerResult)) s1)))))"

subsection \<open>DML by primary key\<close>

text \<open>
  The batch loop of \<^verbatim>\<open>execDMLPKRows\<close>, from index \<open>i\<close> with the result accumulated so far.
  With \<^verbatim>\<open>maxRows = 0\<close> the Go loop does not advance and runs until a batch panics, so the
  loop is a partial function: \<open>None\<close> is the run that never returns. A negative
  \<^verbatim>\<open>maxRows\<close> makes \<^verbatim>\<open>pkRows[i:end]\<close> panic in the first round. Slices are checked against
  their length.
\<close>

partial_function (option) execDMLPKRows_loop ::
  "env \<Rightarrow> query_executor \<Rightarrow> conn \<Rightarrow> row list \<Rightarrow> row list option \<Rightarrow> int \<Rightarrow> nat
     \<Rightarrow> query_result \<Rightarrow> state \<Rightarrow> query_result res option" where
  "execDMLPKRows_loop env qre conn pkRows secondaryList maxRows i result s =
     (if i < length pkRows then
        (let stop = (if int i + maxRows \<ge> int (length pkRows) then int (length pkRows)
                     else int i + maxRows)
         in if stop < int i then Some (Inl (PanicRuntime ''slice bounds out of range''), s)
            else
              (let batch = take (nat stop - i) (drop i pkRows) in
               case (case secondaryList of
                       None \<Rightarrow> Inr None
                     | Some sl \<Rightarrow>
                         if int (length sl) < stop
                         then Inl (PanicRuntime ''slice bounds out of range'')
                         else Inr (Some (take (nat stop - i) (drop i sl)))) of
                 Inl p \<Rightarrow> Some (Inl p, s)
               | Inr secondaryBatch \<Rightarrow>
                   (let bsc = buildStreamComment env (TableInfo (plan qre)) batch secondaryBatch in
                    case index0_Columns (plan qre) of
                      Inl p \<Rightarrow> Some (Inl p, s)
                    | Inr cols \<Rightarrow>
                        (case directFetch env conn (OuterQuery (plan qre)) (bindVars qre) bsc
                                (bv_set (bindVars qre) ''#pk'' (TupleEqualityList cols batch) s) of
                           (Inl p, s') \<Rightarrow> Some (Inl p, s')
                         | (Inr r, s') \<Rightarrow>
                             execDMLPKRows_loop env qre conn pkRows secondaryList maxRows
                               (nat (int i + maxRows))
                               (result\<lparr>RowsAffected := RowsAffected result + RowsAffected r\<rparr>)
                               s'))))
      else Some (Inr result, s))"

definition execDMLPKRows ::
  "env \<Rightarrow> query_executor \<Rightarrow> conn \<Rightarrow> row list \<Rightarrow> invalidator option \<Rightarrow> state
     \<Rightarrow> query_result res option" where
  "execDMLPKRows env qre conn pkRows invalidator s =
     (if length pkRows = 0 then Some (Inr (empty_result\<lparr>RowsAffected := 0\<rparr>), s)
      else
        (case buildSecondaryList env (TableInfo (plan qre)) pkRows (SecondaryPKValues (plan qre))
                (bvstore s (bindVars qre)) of
           Inl err \<Rightarrow> Some (Inl (PanicError err), s)
         | Inr secondaryList \<Rightarrow>
             (case execDMLPKRows_loop env qre conn pkRows secondaryList (sint (maxDMLRows s)) 0
                     empty_result s of
                None \<Rightarrow> None
              | Some (Inl p, s1) \<Rightarrow> Some (Inl p, s1)
              | Some (Inr result, s1) \<Rightarrow>
                  (case invalidator of
                     None \<Rightarrow> Some (Inr result, s1)
                   | Some iv \<Rightarrow>
                       Some (Inr result,
                             fold (\<lambda>pk. emit (EvDelete iv (buildKey env pk))) pkRows s1)))))"

definition execDMLPK ::
  "env \<Rightarrow> query_executor \<Rightarrow> conn \<Rightarrow> invalidator option \<Rightarrow> state \<Rightarrow> query_result res option" where
  "execDMLPK env qre conn invalidator s =
     (case buildValueList env (TableInfo (plan qre)) (PKValues (plan qre)) (bvstore s (bindVars qre)) of
        Inl err \<Rightarrow> Some (Inl (PanicError err), s)
      | Inr pkRows \<Rightarrow> execDMLPKRows env qre conn pkRows invalidator s)"

definition execDMLSubquery ::
  "env \<Rightarrow> query_executor \<Rightarrow> conn \<Rightarrow> invalidator option \<Rightarrow> state \<Rightarrow> query_result res option" where
  "execDMLSubquery env qre conn invalidator s =
     (case directFetch env conn (Subquery (plan qre)) (bindVars qre) None s of
        (Inl p, s') \<Rightarrow> Some (Inl p, s')
      | (Inr innerResult, s') \<Rightarrow> execDMLPKRows env qre conn (Rows innerResult) invalidator s')"


subsection \<open>SET\<close>

definition getInt64 :: "set_value \<Rightarrow> panic_value + int64" where
  "getInt64 v =
     (case v of SVInt64 ival \<Rightarrow> Inr ival | _ \<Rightarrow> Inl (NewTabletError ErrFail ''expecting int''))"

definition getFloat64 :: "env \<Rightarrow> set_value \<Rightarrow> panic_value + float64" where
  "getFloat64 env v =
     (case v of
        SVInt64 ival \<Rightarrow> Inr (float64_of_int64 env ival)
      | SVFloat64 fval \<Rightarrow> Inr fval
      | _ \<Rightarrow> Inl (NewTabletError ErrFail ''expecting number''))"

definition getDuration :: "env \<Rightarrow> set_value \<Rightarrow> panic_value + int64" where
  "getDuration env v =
     (case getFloat64 env v of Inl p \<Rightarrow> Inl p | Inr f \<Rightarrow> Inr (duration_of_seconds env f))"

text \<open>A branch of the switch that reads its argument and then stores it: the panic of the
  reader leaves the state as it was.\<close>

definition setting :: "panic_value + 'a \<Rightarrow> ('a \<Rightarrow> state \<Rightarrow> query_result res) \<Rightarrow> state
     \<Rightarrow> query_result res" where
  "setting arg store s = (case arg of Inl p \<Rightarrow> (Inl p, s) | Inr a \<Rightarrow> store a s)"

definition execSet :: "env \<Rightarrow> query_executor \<Rightarrow> state \<Rightarrow> query_result res" where
  "execSet env qre s =
     (let k = SetKey (plan qre); v = SetValue (plan qre) in
      if k = ''vt_pool_size'' then
        setting (getInt64 v) (\<lambda>n t. (Inr empty_result, emit (EvSetCapacity ConnPool (sint n)) t)) s
      else if k = ''vt_stream_pool_size'' then
        setting (getInt64 v)
          (\<lambda>n t. (Inr empty_result, emit (EvSetCapacity StreamConnPool (sint n)) t)) s
      else if k = ''vt_transaction_cap'' then
        setting (getInt64 v) (\<lambda>n t. (Inr empty_result, emit (EvSetCapacity TxPool (sint n)) t)) s
      else if k = ''vt_transaction_timeout'' then
        setting (getDuration env v) (\<lambda>d t. (Inr empty_result, emit (EvSetTimeout d) t)) s
      else if k = ''vt_schema_reload_time'' then
        setting (getDuration env v) (\<lambda>d t. (Inr empty_result, emit (EvSetReloadTime d) t)) s
      else if k = ''vt_query_cache_size'' then
        setting (getInt64 v)
          (\<lambda>n t. (Inr empty_result, emit (EvSetQueryCacheSize (sint n)) t)) s
      else if k = ''vt_max_result_size'' then
        setting (getInt64 v)
          (\<lambda>val t. if val <s 1
                    then (Inl (NewTabletError ErrFail
                                 (''vt_max_result_size out of range '' @ show_int (sint val))), t)
                    else (Inr empty_result, t\<lparr>maxResultSize := val\<rparr>)) s
      else if k = ''vt_max_dml_rows'' then
        setting (getInt64 v)
          (\<lambda>val t. if val <s 1
                    then (Inl (NewTabletError ErrFail
                                 (''vt_max_dml_rows out of range '' @ show_int (sint val))), t)
                    else (Inr empty_result, t\<lparr>maxDMLRows := val\<rparr>)) s
      else if k = ''vt_stream_buffer_size'' then
        setting (getInt64 v)
          (\<lambda>val t. if val <s 1024
                    then (Inl (NewTabletError ErrFail
                                 (''vt_stream_buffer_size out of range '' @ show_int (sint val))), t)
                    else (Inr empty_result, t\<lparr>streamBufferSize := val\<rparr>)) s
      else if k = ''vt_query_timeout'' then
        setting (getDuration env v) (\<lambda>d t. (Inr empty_result, t\<lparr>queryTimeout := d\<rparr>)) s
      else if k = ''vt_idle_timeout'' then
        setting (getDuration env v)
          (\<lambda>d t. (Inr empty_result,
                   emit (EvSetIdleTimeout TxPool d)
                     (emit (EvSetIdleTimeout StreamConnPool d)
                        (emit (EvSetIdleTimeout ConnPool d) t)))) s
      else if k = ''vt_spot_check_ratio'' then
        setting (getFloat64 env v)
          (\<lambda>f t. (Inr empty_result, t\<lparr>spotCheckFreq := spot_check_freq_of env f\<rparr>)) s
      else if k = ''vt_strict_mode'' then
        setting (getInt64 v) (\<lambda>n t. (Inr empty_result, t\<lparr>strictMode := n\<rparr>)) s
      else if k = ''vt_txpool_timeout'' then
        setting (getDuration env v) (\<lambda>d t. (Inr empty_result, emit (EvSetPoolTimeout d) t)) s
      else
        (case getConn env ConnPool s of
           (Inl p, s') \<Rightarrow> (Inl p, s')
         | (Inr conn, s') \<Rightarrow>
             deferred (emit (EvRecycle conn))
               (directFetch env conn (FullQuery (plan qre)) (bindVars qre) None) s'))"

subsection \<open>Execute\<close>

text \<open>Lines 69 to 72 and 153 to 156: the invalidator of a cached table.\<close>

definition tableInvalidator ::
  "query_executor \<Rightarrow> conn \<Rightarrow> state \<Rightarrow> invalidator option \<times> state" where
  "tableInvalidator qre conn s =
     (case TableInfo (plan qre) of
        None \<Rightarrow> (None, s)
      | Some tableInfo \<Rightarrow>
          if CacheType tableInfo \<noteq> CACHE_NONE
          then (Some (DirtyKeys conn (TableName (plan qre))),
                emit (EvDirtyKeys conn (TableName (plan qre))) s)
          else (None, s))"

text \<open>Lines 153 to 173: what \<^verbatim>\<open>execDmlAutoCommit\<close> does with the pinned connection.\<close>

definition execDmlAutoCommit_dispatch ::
  "env \<Rightarrow> query_executor \<Rightarrow> conn \<Rightarrow> state \<Rightarrow> query_result res option" where
  "execDmlAutoCommit_dispatch env qre conn s =
     (case tableInvalidator qre conn s of
        (invalidator, s1) \<Rightarrow>
          (case PlanId (plan qre) of
             PLAN_PASS_DML \<Rightarrow>
               if strictMode s1 \<noteq> 0 then Some (Inl (NewTabletError ErrFail ''DML too complex''), s1)
               else Some (directFetch env conn (FullQuery (plan qre)) (bindVars qre) None s1)
           | PLAN_INSERT_PK \<Rightarrow> Some (execInsertPK env qre conn s1)
           | PLAN_INSERT_SUBQUERY \<Rightarrow> Some (execInsertSubquery env qre conn s1)
           | PLAN_DML_PK \<Rightarrow> execDMLPK env qre conn invalidator s1
           | PLAN_DML_SUBQUERY \<Rightarrow> execDMLSubquery env qre conn invalidator s1
           | _ \<Rightarrow> Some (Inl (NewTabletError ErrFatal (''unsupported query: '' @ query qre)), s1)))"

text \<open>Lines 151 to 174, under the deferred recover: the pinned connection is fetched,
  its \<^verbatim>\<open>Recycle\<close> deferred, and the plan dispatched.\<close>

definition execDmlAutoCommit_body ::
  "env \<Rightarrow> query_executor \<Rightarrow> int64 \<Rightarrow> state \<Rightarrow> query_result res option" where
  "execDmlAutoCommit_body env qre txid s =
     (case txPool_Get env (trace s) txid of
        Inl p \<Rightarrow> Some (Inl p, s)
      | Inr c \<Rightarrow>
          deferred_opt (emit (EvRecycle (Conn TxPool c)))
            (execDmlAutoCommit_dispatch env qre (Conn TxPool c))
            (emit (EvGet (Conn TxPool c)) s))"

text \<open>The deferred function of \<^verbatim>\<open>execDmlAutoCommit\<close> recovers: without a panic it commits
  (and a panic of \<^verbatim>\<open>Commit\<close> goes up, before \<^verbatim>\<open>commit\<close> is logged); with a panic it rolls
  back, logs \<^verbatim>\<open>rollback\<close> and panics again with the value recovered.\<close>

definition execDmlAutoCommit :: "env \<Rightarrow> query_executor \<Rightarrow> state \<Rightarrow> query_result res option" where
  "execDmlAutoCommit env qre s =
     (case txPool_Begin env (trace s) of
        Inl p \<Rightarrow> Some (Inl p, s)
      | Inr txid \<Rightarrow>
          (case execDmlAutoCommit_body env qre txid
                  (AddRewrittenSql ''begin'' (emit (EvBegin txid) s)) of
             None \<Rightarrow> None
           | Some (Inr reply, s1) \<Rightarrow>
               (case qe_Commit env (trace s1) txid of
                  Some p \<Rightarrow> Some (Inl p, emit (EvCommit txid) s1)
                | None \<Rightarrow> Some (Inr reply, AddRewrittenSql ''commit'' (emit (EvCommit txid) s1)))
           | Some (Inl err, s1) \<Rightarrow>
               Some (Inl err, AddRewrittenSql ''rollback'' (emit (EvRollback txid) s1))))"

text \<open>Lines 68 to 91: the request inside a transaction, on the pinned connection.\<close>

definition Execute_inTransaction ::
  "env \<Rightarrow> query_executor \<Rightarrow> conn \<Rightarrow> state \<Rightarrow> query_result res option" where
  "Execute_inTransaction env qre conn s =
     (case tableInvalidator qre conn (emit (EvRecordQuery conn (query qre)) s) of
        (invalidator, s1) \<Rightarrow>
          (case PlanId (plan qre) of
             PLAN_PASS_DML \<Rightarrow>
               if strictMode s1 \<noteq> 0 then Some (Inl (NewTabletError ErrFail ''DML too complex''), s1)
               else Some (directFetch env conn (FullQuery (plan qre)) (bindVars qre) None s1)
           | PLAN_INSERT_PK \<Rightarrow> Some (execInsertPK env qre conn s1)
           | PLAN_INSERT_SUBQUERY \<Rightarrow> Some (execInsertSubquery env qre conn s1)
           | PLAN_DML_PK \<Rightarrow> execDMLPK env qre conn invalidator s1
           | PLAN_DML_SUBQUERY \<Rightarrow> execDMLSubquery env qre conn invalidator s1
           | PLAN_OTHER \<Rightarrow> Some (execSQL env conn (query qre) True s1)
           | _ \<Rightarrow> Some (execDirect env qre conn s1)))"

text \<open>Lines 93 to 114: the request outside a transaction.\<close>

definition Execute_noTransaction ::
  "env \<Rightarrow> query_executor \<Rightarrow> state \<Rightarrow> query_result res option" where
  "Execute_noTransaction env qre s =
     (case PlanId (plan qre) of
        PLAN_PASS_SELECT \<Rightarrow>
          if Reason (plan qre) = REASON_LOCK
          then Some (Inl (NewTabletError ErrFail ''Disallowed outside transaction''), s)
          else Some (execSelect env qre s)
      | PLAN_PK_IN \<Rightarrow> Some (execPKIN env qre s)
      | PLAN_SELECT_SUBQUERY \<Rightarrow> Some (execSubquery env qre s)
      | PLAN_SET \<Rightarrow> Some (execSet env qre s)
      | PLAN_OTHER \<Rightarrow>
          (case getConn env ConnPool s of
             (Inl p, s') \<Rightarrow> Some (Inl p, s')
           | (Inr conn, s') \<Rightarrow>
               Some (deferred (emit (EvRecycle conn)) (execSQL env conn (query qre) True) s'))
      | _ \<Rightarrow>
          if \<not> enableAutoCommit env
          then Some (Inl (NewTabletError ErrFatal (''unsupported query: '' @ query qre)), s)
          else execDmlAutoCommit env qre s)"

text \<open>Lines 58 to 116, under the deferred statistics.\<close>

definition Execute_body :: "env \<Rightarrow> query_executor \<Rightarrow> state \<Rightarrow> query_result res option" where
  "Execute_body env qre s =
     (case checkPermissions env qre s of
        (Inl p, s1) \<Rightarrow> Some (Inl p, s1)
      | (Inr _, s1) \<Rightarrow>
          if PlanId (plan qre) = PLAN_DDL then Some (execDDL env qre s1)
          else if transactionID qre \<noteq> 0 then
            (case txPool_Get env (trace s1) (transactionID qre) of
               Inl p \<Rightarrow> Some (Inl p, s1)
             | Inr c \<Rightarrow>
                 deferred_opt (emit (EvRecycle (Conn TxPool c)))
                   (Execute_inTransaction env qre (Conn TxPool c))
                   (emit (EvGet (Conn TxPool c)) s1))
          else Execute_noTransaction env qre s1)"

text \<open>The deferred function of \<^verbatim>\<open>Execute\<close> (lines 45 to 56); durations are left out. A
  panic leaves \<^verbatim>\<open>reply\<close> nil.\<close>

definition Execute_stats ::
  "env \<Rightarrow> query_executor \<Rightarrow> panic_value + query_result \<Rightarrow> state \<Rightarrow> state" where
  "Execute_stats env qre reply s =
     (let s1 = emit (EvQueryStats (PlanId_String env (PlanId (plan qre)))) s in
      case reply of
        Inl _ \<Rightarrow> emit (EvPlanAddStats 1 0 1) s1
      | Inr r \<Rightarrow>
          (let s2 = emit (EvPlanAddStats 1 (RowsAffected r) 0) s1;
               s3 = s2\<lparr>logStats := (logStats s2)
                         \<lparr>stats_RowsAffected := sint (RowsAffected r), stats_Rows := Rows r\<rparr>\<rparr>
           in emit (EvResultStats (of_nat (length (Rows r)))) s3))"

definition Execute :: "env \<Rightarrow> query_executor \<Rightarrow> state \<Rightarrow> query_result res option" where
  "Execute env qre s =
     (let s1 = s\<lparr>logStats := (logStats s)
                  \<lparr>OriginalSql := query qre, BindVariables := bindVars qre,
                   TransactionID := transactionID qre,
                   PlanType := PlanId_String env (PlanId (plan qre))\<rparr>\<rparr>
      in case Execute_body env qre s1 of
           None \<Rightarrow> None
         | Some (reply, s2) \<Rightarrow> Some (reply, Execute_stats env qre reply s2))"


subsection \<open>The pooled connection's row cap\<close>


subsection \<open>Reading the trace\<close>

text \<open>The backend executions in a trace, and the checkouts and returns of the connections
  in a class \<open>P\<close> (all of them, those of one pool, a single one).\<close>

fun is_Exec :: "event \<Rightarrow> bool" where
  "is_Exec (EvExec _ _ _ _ _) = True"
| "is_Exec _ = False"

fun is_Get :: "(conn \<Rightarrow> bool) \<Rightarrow> event \<Rightarrow> bool" where
  "is_Get P (EvGet c) = P c"
| "is_Get P _ = False"

fun is_Recycle :: "(conn \<Rightarrow> bool) \<Rightarrow> event \<Rightarrow> bool" where
  "is_Recycle P (EvRecycle c) = P c"
| "is_Recycle P _ = False"

definition execs :: "event list \<Rightarrow> event list" where
  "execs tr = filter is_Exec tr"

definition gets :: "(conn \<Rightarrow> bool) \<Rightarrow> event list \<Rightarrow> nat" where
  "gets P tr = length (filter (is_Get P) tr)"

definition recycles :: "(conn \<Rightarrow> bool) \<Rightarrow> event list \<Rightarrow> nat" where
  "recycles P tr = length (filter (is_Recycle P) tr)"

text \<open>Checkouts not yet returned.\<close>

definition outstanding :: "(conn \<Rightarrow> bool) \<Rightarrow> event list \<Rightarrow> int" where
  "outstanding P tr = int (gets P tr) - int (recycles P tr)"

text \<open>The spec's words for DML chunking: \<open>\<lceil>N/B\<rceil>\<close> batches for \<open>N\<close> keys with batch size
  \<open>B\<close>, and the \<open>k\<close>-th batch of a list, to compare with what the loop of
  \<^verbatim>\<open>execDMLPKRows\<close> does.\<close>

definition batch_count :: "nat \<Rightarrow> nat \<Rightarrow> nat" where
  "batch_count n b = (n + b - 1) div b"

definition batch_of :: "nat \<Rightarrow> nat \<Rightarrow> 'a list \<Rightarrow> 'a list" where
  "batch_of b k xs = take b (drop (k * b) xs)"

text \<open>The second state's log of rewritten statements continues the first's.\<close>

definition log_extends :: "state \<Rightarrow> state \<Rightarrow> bool" where
  "log_extends s s' \<longleftrightarrow> (\<exists>mid. RewrittenSql (logStats s') = RewrittenSql (logStats s) @ mid)"

subsection \<open>A small world to run the executor in\<close>

text \<open>A table \<^verbatim>\<open>t\<close> with primary key \<^verbatim>\<open>id\<close>, templates that expand to their own text
  followed by the keys bound to \<^verbatim>\<open>#pk\<close>, and a backend that answers every statement
  with as many affected rows as the statement has characters.\<close>

definition demo_table :: table_info where
  "demo_table = \<lparr>Name = ''t'', CacheType = CACHE_RW, PKColumns = [0], Indexes = [Index [''id'']]\<rparr>"

definition demo_plan :: exec_plan where
  "demo_plan =
     \<lparr>PlanId = PLAN_DML_PK, Reason = REASON_DEFAULT, TableName = ''t'',
      TableInfo = Some demo_table, plan_Fields = Some [Field ''id'' 8],
      FullQuery = ParsedQuery ''full'', OuterQuery = ParsedQuery ''outer'',
      Subquery = ParsedQuery ''sub'', ColumnNumbers = [0], PKValues = PlanExpr ''pk'',
      SecondaryPKValues = PlanExpr [], SubqueryPKColumns = [0], SetKey = ''vt_max_dml_rows'',
      SetValue = SVInt64 500, Limit = PlanExpr [], Rules = QueryRules ''r'', Authorized = None\<rparr>"

definition demo_qre :: query_executor where
  "demo_qre =
     \<lparr>query = ''q'', bindVars = 0, transactionID = 0, plan = demo_plan, ctx = Background\<rparr>"

definition demo_stats :: sql_query_stats where
  "demo_stats =
     \<lparr>OriginalSql = [], BindVariables = 0, TransactionID = 0, PlanType = [],
      stats_RowsAffected = 0, stats_Rows = [], RewrittenSql = [], CacheHits = 0,
      CacheAbsent = 0, CacheMisses = 0, QuerySources = {}\<rparr>"

definition demo_state :: state where
  "demo_state =
     \<lparr>trace = [], bvstore = (\<lambda>_. Map.empty), next_ref = 1, maxResultSize = 10000,
      maxDMLRows = 2, streamBufferSize = 32768, spotCheckFreq = 0, strictMode = 1,
      queryTimeout = 0, logStats = demo_stats\<rparr>"

definition demo_key :: "row \<Rightarrow> string" where
  "demo_key r = concat (map String_of r)"

definition demo_rows :: "nat \<Rightarrow> query_result" where
  "demo_rows n =
     \<lparr>Fields = None, RowsAffected = of_nat n, InsertId = 0, Rows = replicate n [SqlValue ''x'']\<rparr>"

definition demo_affected :: "nat \<Rightarrow> query_result" where
  "demo_affected n = \<lparr>Fields = None, RowsAffected = of_nat n, InsertId = 0, Rows = []\<rparr>"

definition demo_env :: env where
  "demo_env =
     \<lparr>GenerateQuery =
        (\<lambda>q bv. case q of ParsedQuery t \<Rightarrow>
                   Inr (t @ (case bv ''#pk'' of
                               Some (TupleEqualityList cols rs) \<Rightarrow> concat (map demo_key rs)
                             | _ \<Rightarrow> []))),
      restoreTrailing = (\<lambda>sql bv. sql),
      buildValueList = (\<lambda>ti e bv. Inr [[SqlValue ''1''], [SqlValue ''2''], [SqlValue ''3'']]),
      buildSecondaryList = (\<lambda>ti rs e bv. Inr None),
      buildStreamComment = (\<lambda>ti rs sec. Some '' /* _stream t */''),
      buildKey = demo_key,
      applyFilter = (\<lambda>cols r. r),
      applyFilterWithPKDefaults = (\<lambda>ti cols r. r),
      validateRow = (\<lambda>ti cols r. None),
      getLimit = (\<lambda>e bv. Inr (- 1)),
      DDLParse = (\<lambda>q. \<lparr>Action = ''alter'', ddl_TableName = ''t'', NewName = ''t''\<rparr>),
      getAction = (\<lambda>r addr user bv. (QR_NONE, [])),
      NewTabletErrorSql = (\<lambda>k e. TabletError k ''sql error''),
      Error = (\<lambda>e. ''error''),
      PlanId_String = (\<lambda>p. ''PLAN''),
      quote = (\<lambda>x. x),
      spotCheckMultiplier = 1000000,
      float64_of_int64 = (\<lambda>i. i),
      duration_of_seconds = (\<lambda>f. f),
      spot_check_freq_of = (\<lambda>f. f),
      strictTableAcl = True,
      enableAutoCommit = True,
      pool_Get = (\<lambda>tr p. Inr 7),
      txPool_Begin = (\<lambda>tr. Inr 42),
      txPool_Get = (\<lambda>tr txid. Inr 1),
      qe_Commit = (\<lambda>tr txid. None),
      conn_Exec = (\<lambda>tr c sql maxrows wantfields. Inr (demo_affected (length sql))),
      consolidator_Create = (\<lambda>tr sql. True),
      consolidator_Wait = (\<lambda>tr sql. Inl (GoError ''no leader'')),
      cache_Get = (\<lambda>tr t ks. Map.empty),
      Rand = (\<lambda>tr. 0)\<rparr>"

text \<open>The same world with a backend that answers with as many rows as the statement has
  characters.\<close>

definition demo_select_env :: env where
  "demo_select_env =
     demo_env\<lparr>conn_Exec := (\<lambda>tr c sql maxrows wantfields. Inr (demo_rows (length sql)))\<rparr>"

section \<open>Properties\<close>

subsection \<open>Basic facts about the state\<close>

lemma trace_emit [simp]: "trace (emit e s) = trace s @ [e]" by (simp add: emit_def)
lemma trace_AddRewrittenSql [simp]: "trace (AddRewrittenSql q s) = trace s" by (simp add: AddRewrittenSql_def)
lemma trace_bv_set [simp]: "trace (bv_set r k v s) = trace s" by (simp add: bv_set_def)
lemma maxResultSize_bv_set [simp]: "maxResultSize (bv_set r k v s) = maxResultSize s" by (simp add: bv_set_def)
lemma of_nat_nat_sint: "0 \<le> sint (w :: 64 word) \<Longrightarrow> of_nat (nat (sint w)) = w"
proof -
  assume "0 \<le> sint w"
  then have "(of_nat (nat (sint w)) :: 64 word) = of_int (sint w)"
    by (rule of_nat_nat)
  then show ?thesis by simp
qed

subsection \<open>The backend call\<close>

text \<open>
  Claim C9. Whatever \<^verbatim>\<open>wantfields\<close> the caller of \<^verbatim>\<open>execSQL\<close> passes, the one backend
  call it makes, \<^verbatim>\<open>conn.Exec\<close> through \<^verbatim>\<open>execSQLNoPanic\<close>, is made with
  \<^verbatim>\<open>wantfields = true\<close>; so the outcome does not depend on the argument either.
\<close>

theorem execSQL_wantfields_always_true: "trace (snd (execSQL env conn sql wantfields s)) =
   trace s @ [EvExec conn sql (sint (maxResultSize s)) True
                (conn_Exec env (trace s) conn sql (sint (maxResultSize s)) True)]
   \<and> execSQL env conn sql wantfields s = execSQL env conn sql True s"
  by (simp add: execSQL_def execSQLNoPanic_def Let_def split: sum.splits)

theorem execSQL_wantfields_always_true_witness:
  "trace (snd (execSQL demo_env (Conn ConnPool 7) ''select 1'' False demo_state)) =
     [EvExec (Conn ConnPool 7) ''select 1'' 10000 True (Inr (demo_affected 8))]"
  using execSQL_wantfields_always_true [of demo_env "Conn ConnPool 7" "''select 1''" False demo_state, THEN conjunct1]
  by (simp add: demo_env_def demo_state_def eval_nat_numeral)




subsection \<open>The policy gate\<close>

text \<open>
  Claim C7. With the background context \<^verbatim>\<open>checkPermissions\<close> returns at once, whatever
  the rules and the ACL say, and leaves the state alone. With any other context it asks
  \<^verbatim>\<open>Rules.getAction\<close> about the remote address and user name of the call info (empty
  strings without one) and the bind variables: \<^verbatim>\<open>QR_FAIL\<close> panics with an \<^verbatim>\<open>ErrFail\<close>
  error, \<^verbatim>\<open>QR_FAIL_RETRY\<close> with an \<^verbatim>\<open>ErrRetry\<close> error, both with the rule's description
  in the message; otherwise the table ACL decides: no ACL or a member passes, a
  non-member fails with \<^verbatim>\<open>ErrFail\<close> in strict mode and is only logged otherwise.
\<close>

theorem checkPermissions_gate:
  "(ctx qre = Background \<longrightarrow> checkPermissions env qre s = (Inr (), s))
   \<and> (\<forall>ci desc. ctx qre = RequestCtx ci \<longrightarrow>
         getAction env (Rules (plan qre))
           (case ci of Some info \<Rightarrow> RemoteAddr info | None \<Rightarrow> [])
           (case ci of Some info \<Rightarrow> Username info | None \<Rightarrow> [])
           (bvstore s (bindVars qre)) = (QR_FAIL, desc) \<longrightarrow>
         checkPermissions env qre s =
           (Inl (PanicError (TabletError ErrFail (''Query disallowed due to rule: '' @ desc))), s))
   \<and> (\<forall>ci desc. ctx qre = RequestCtx ci \<longrightarrow>
         getAction env (Rules (plan qre))
           (case ci of Some info \<Rightarrow> RemoteAddr info | None \<Rightarrow> [])
           (case ci of Some info \<Rightarrow> Username info | None \<Rightarrow> [])
           (bvstore s (bindVars qre)) = (QR_FAIL_RETRY, desc) \<longrightarrow>
         checkPermissions env qre s =
           (Inl (PanicError (TabletError ErrRetry (''Query disallowed due to rule: '' @ desc))), s))
   \<and> (\<forall>ci desc. ctx qre = RequestCtx ci \<longrightarrow>
         getAction env (Rules (plan qre))
           (case ci of Some info \<Rightarrow> RemoteAddr info | None \<Rightarrow> [])
           (case ci of Some info \<Rightarrow> Username info | None \<Rightarrow> [])
           (bvstore s (bindVars qre)) = (QR_NONE, desc) \<longrightarrow>
         checkPermissions env qre s =
           (case Authorized (plan qre) of
              None \<Rightarrow> (Inr (), s)
            | Some isMember \<Rightarrow>
                if isMember (case ci of Some info \<Rightarrow> Username info | None \<Rightarrow> []) then (Inr (), s)
                else if strictTableAcl env
                then (Inl (PanicError (TabletError ErrFail
                        (''table acl error: ''
                           @ quote env (case ci of Some info \<Rightarrow> Username info | None \<Rightarrow> [])
                           @ '' cannot run '' @ PlanId_String env (PlanId (plan qre))
                           @ '' on table '' @ quote env (TableName (plan qre))))), s)
                else (Inr (), emit (EvLogError
                        (''table acl error: ''
                           @ quote env (case ci of Some info \<Rightarrow> Username info | None \<Rightarrow> [])
                           @ '' cannot run '' @ PlanId_String env (PlanId (plan qre))
                           @ '' on table '' @ quote env (TableName (plan qre)))) s)))"
  by (auto simp: checkPermissions_def NewTabletError_def Let_def split: option.splits)


theorem checkPermissions_gate_witness:
  "checkPermissions (demo_env\<lparr>getAction := \<lambda>r addr user bv. (QR_FAIL, ''blacklist'')\<rparr>) demo_qre
       demo_state = (Inr (), demo_state)
   \<and> checkPermissions (demo_env\<lparr>getAction := \<lambda>r addr user bv. (QR_FAIL, ''blacklist'')\<rparr>)
       (demo_qre\<lparr>ctx := RequestCtx (Some \<lparr>RemoteAddr = ''10.0.0.1'', Username = ''bob''\<rparr>)\<rparr>)
       demo_state
     = (Inl (PanicError (TabletError ErrFail ''Query disallowed due to rule: blacklist'')), demo_state)"
proof -
  let ?env = "demo_env\<lparr>getAction := \<lambda>r addr user bv. (QR_FAIL, ''blacklist'')\<rparr>"
  let ?ci = "Some \<lparr>RemoteAddr = ''10.0.0.1'', Username = ''bob''\<rparr>"
  let ?qre = "demo_qre\<lparr>ctx := RequestCtx ?ci\<rparr>"
  have "checkPermissions ?env demo_qre demo_state = (Inr (), demo_state)"
    using checkPermissions_gate [of demo_qre ?env demo_state] by (simp add: demo_qre_def)
  moreover have "checkPermissions ?env ?qre demo_state
     = (Inl (PanicError (TabletError ErrFail ''Query disallowed due to rule: blacklist'')), demo_state)"
    using checkPermissions_gate [of ?qre ?env demo_state, THEN conjunct2, THEN conjunct1, rule_format,
        of ?ci "''blacklist''"]
    by simp
  ultimately show ?thesis by simp
qed

subsection \<open>SET on the sized tunables\<close>

text \<open>
  Claim C5. For \<^verbatim>\<open>vt_max_result_size\<close> and \<^verbatim>\<open>vt_max_dml_rows\<close> a value below 1, and for
  \<^verbatim>\<open>vt_stream_buffer_size\<close> a value below 1024, makes \<^verbatim>\<open>execSet\<close> panic with an \<^verbatim>\<open>ErrFail\<close>
  error whose message is the variable's name, \<^verbatim>\<open>out of range\<close> and the value in
  decimal, and the state (so the tunable) stays as it was; any other integer is stored in
  the tunable and an empty \<^verbatim>\<open>QueryResult\<close> is returned.
\<close>

theorem execSet_sized_tunables:
  "(SetKey (plan qre) = ''vt_max_result_size'' \<longrightarrow> SetValue (plan qre) = SVInt64 val \<longrightarrow>
      execSet env qre s =
        (if sint val < 1
         then (Inl (PanicError (TabletError ErrFail
                 (''vt_max_result_size'' @ '' out of range '' @ show_int (sint val)))), s)
         else (Inr empty_result, s\<lparr>maxResultSize := val\<rparr>)))
   \<and> (SetKey (plan qre) = ''vt_max_dml_rows'' \<longrightarrow> SetValue (plan qre) = SVInt64 val \<longrightarrow>
      execSet env qre s =
        (if sint val < 1
         then (Inl (PanicError (TabletError ErrFail
                 (''vt_max_dml_rows'' @ '' out of range '' @ show_int (sint val)))), s)
         else (Inr empty_result, s\<lparr>maxDMLRows := val\<rparr>)))
   \<and> (SetKey (plan qre) = ''vt_stream_buffer_size'' \<longrightarrow> SetValue (plan qre) = SVInt64 val \<longrightarrow>
      execSet env qre s =
        (if sint val < 1024
         then (Inl (PanicError (TabletError ErrFail
                 (''vt_stream_buffer_size'' @ '' out of range '' @ show_int (sint val)))), s)
         else (Inr empty_result, s\<lparr>streamBufferSize := val\<rparr>)))"
  by (simp add: execSet_def setting_def getInt64_def NewTabletError_def word_sless_alt)

theorem execSet_sized_tunables_witness:
  "execSet demo_env (demo_qre\<lparr>plan := demo_plan\<lparr>SetValue := SVInt64 0\<rparr>\<rparr>) demo_state
     = (Inl (PanicError (TabletError ErrFail ''vt_max_dml_rows out of range 0'')), demo_state)
   \<and> execSet demo_env demo_qre demo_state
     = (Inr empty_result, demo_state\<lparr>maxDMLRows := 500\<rparr>)"
proof -
  have "execSet demo_env (demo_qre\<lparr>plan := demo_plan\<lparr>SetValue := SVInt64 0\<rparr>\<rparr>) demo_state
     = (Inl (PanicError (TabletError ErrFail ''vt_max_dml_rows out of range 0'')), demo_state)"
    using execSet_sized_tunables [of "demo_qre\<lparr>plan := demo_plan\<lparr>SetValue := SVInt64 0\<rparr>\<rparr>" 0 demo_env demo_state]
    by (simp add: demo_plan_def show_int_def nat_digits.simps)
  moreover have "execSet demo_env demo_qre demo_state
     = (Inr empty_result, demo_state\<lparr>maxDMLRows := 500\<rparr>)"
    using execSet_sized_tunables [of demo_qre 500 demo_env demo_state]
    by (simp add: demo_qre_def demo_plan_def)
  ultimately show ?thesis by simp
qed

subsection \<open>DML over no rows\<close>

text \<open>
  Claim C10. \<^verbatim>\<open>execDMLPKRows\<close> over an empty list of PK rows returns a result with
  \<^verbatim>\<open>RowsAffected = 0\<close> and the state untouched: no statement executed, no key handed to
  the invalidator. \<^verbatim>\<open>execInsertSubquery\<close> whose subquery returns no rows returns the same
  result in the state the subquery fetch left: nothing happens after that fetch.
\<close>

theorem empty_dml_is_noop:
  "execDMLPKRows env qre conn [] invalidator s
     = Some (Inr \<lparr>Fields = None, RowsAffected = 0, InsertId = 0, Rows = []\<rparr>, s)
   \<and> (directFetch env conn (Subquery (plan qre)) (bindVars qre) None s = (Inr innerResult, s')
        \<longrightarrow> Rows innerResult = []
        \<longrightarrow> execInsertSubquery env qre conn s
             = (Inr \<lparr>Fields = None, RowsAffected = 0, InsertId = 0, Rows = []\<rparr>, s'))"
  by (simp add: execDMLPKRows_def execInsertSubquery_def empty_result_def)



theorem empty_dml_is_noop_witness:
  "execDMLPKRows demo_env demo_qre (Conn TxPool 1) [] (Some (DirtyKeys (Conn TxPool 1) ''t'')) demo_state
     = Some (Inr \<lparr>Fields = None, RowsAffected = 0, InsertId = 0, Rows = []\<rparr>, demo_state)
   \<and> fst (execInsertSubquery (demo_env\<lparr>conn_Exec := \<lambda>tr c sql m w. Inr (demo_rows 0)\<rparr>) demo_qre
            (Conn TxPool 1) demo_state)
     = Inr \<lparr>Fields = None, RowsAffected = 0, InsertId = 0, Rows = []\<rparr>
   \<and> execs (trace (snd (execInsertSubquery (demo_env\<lparr>conn_Exec := \<lambda>tr c sql m w. Inr (demo_rows 0)\<rparr>)
            demo_qre (Conn TxPool 1) demo_state)))
     = [EvExec (Conn TxPool 1) ''sub'' 10000 True (Inr (demo_rows 0))]"
proof -
  let ?env = "demo_env\<lparr>conn_Exec := \<lambda>tr c sql m w. Inr (demo_rows 0)\<rparr>"
  let ?c = "Conn TxPool 1"
  let ?df = "directFetch ?env ?c (Subquery (plan demo_qre)) (bindVars demo_qre) None demo_state"
  note inst = empty_dml_is_noop [of ?env demo_qre ?c "Some (DirtyKeys ?c ''t'')" demo_state "demo_rows 0" "snd ?df"]
  note inst0 = empty_dml_is_noop [of demo_env demo_qre ?c "Some (DirtyKeys ?c ''t'')" demo_state]
  have df: "fst ?df = Inr (demo_rows 0)"
    by (simp add: directFetch_def generateFinalSql_def execSQL_def execSQLNoPanic_def bv_set_def
        Let_def demo_env_def demo_qre_def demo_plan_def demo_state_def)
  have tr: "execs (trace (snd ?df)) = [EvExec ?c ''sub'' 10000 True (Inr (demo_rows 0))]"
    by (simp add: directFetch_def generateFinalSql_def execSQL_def execSQLNoPanic_def bv_set_def
        Let_def demo_env_def demo_qre_def demo_plan_def demo_state_def execs_def emit_def
        AddRewrittenSql_def)
  from df have "?df = (Inr (demo_rows 0), snd ?df)" by (simp add: prod_eq_iff)
  moreover have "Rows (demo_rows 0) = []" by (simp add: demo_rows_def)
  ultimately have "execInsertSubquery ?env demo_qre ?c demo_state
      = (Inr \<lparr>Fields = None, RowsAffected = 0, InsertId = 0, Rows = []\<rparr>, snd ?df)"
    using inst by blast
  with tr inst0 show ?thesis by simp
qed

subsection \<open>The limit of the read-through\<close>

lemma fetchMulti_result:
  assumes "plan_Fields (plan qre) = Some flds" "pkRows \<noteq> []" "limit \<noteq> 0"
    and "fetchMulti_rows env qre pkRows s = (Inr rows, s')"
  shows "fetchMulti env qre pkRows limit s =
           (Inr \<lparr>Fields = Some flds,
                 RowsAffected = of_nat (length (if 0 < sint limit \<and> nat (sint limit) < length rows
                                                then take (nat (sint limit)) rows else rows)),
                 InsertId = 0,
                 Rows = (if 0 < sint limit \<and> nat (sint limit) < length rows
                         then take (nat (sint limit)) rows else rows)\<rparr>, s')"
proof (cases "0 < sint limit \<and> nat (sint limit) < length rows")
  case True
  then have c1: "0 < sint limit" and c2: "sint limit < int (length rows)"
    and c3: "nat (sint limit) < length rows" by auto
  from c1 have l: "limit = of_nat (nat (sint limit))"
    by (simp add: of_nat_nat_sint)
  from c3 have m: "min (length rows) (nat (sint limit)) = nat (sint limit)" by simp
  from assms show ?thesis
    unfolding fetchMulti_def Let_def by (simp add: c1 c2 c3 m l [symmetric])
next
  case False
  then have c: "\<not> (0 < sint limit \<and> sint limit < int (length rows))" by auto
  from assms show ?thesis
    unfolding fetchMulti_def Let_def using False c by auto
qed


lemma fetchMulti_Inr_rows:
  assumes "plan_Fields (plan qre) = Some flds" "pkRows \<noteq> []" "limit \<noteq> 0"
    and "fetchMulti env qre pkRows limit s = (Inr r, t)"
  shows "\<exists>rows. fetchMulti_rows env qre pkRows s = (Inr rows, t)"
proof (cases "fetchMulti_rows env qre pkRows s")
  case (Pair out u)
  show ?thesis
  proof (cases out)
    case (Inl p)
    with Pair assms show ?thesis by (simp add: fetchMulti_def)
  next
    case (Inr rows)
    with Pair assms have "u = t"
      by (simp add: fetchMulti_def Let_def split: if_splits)
    with Pair Inr show ?thesis by simp
  qed
qed

text \<open>
  Claim C3. For a plan with \<^verbatim>\<open>Fields\<close>: with no PK rows or \<^verbatim>\<open>limit = 0\<close>, \<^verbatim>\<open>fetchMulti\<close>
  returns the empty result with the plan's fields and leaves the state (cache and backend
  included) untouched. Otherwise, when the rows are assembled (lines 256 to 302), the
  result has the plan's fields and the assembled rows, cut to the first \<^verbatim>\<open>limit\<close> when
  \<^verbatim>\<open>limit\<close> is positive and smaller than their number (a negative limit cuts nothing).
  Whenever \<^verbatim>\<open>fetchMulti\<close> returns, \<^verbatim>\<open>RowsAffected\<close> is the number of rows returned.
\<close>

theorem fetchMulti_limit:
  "plan_Fields (plan qre) = Some flds \<Longrightarrow>
   (pkRows = [] \<or> limit = 0 \<longrightarrow>
      fetchMulti env qre pkRows limit s
        = (Inr \<lparr>Fields = Some flds, RowsAffected = 0, InsertId = 0, Rows = []\<rparr>, s))
   \<and> (pkRows \<noteq> [] \<longrightarrow> limit \<noteq> 0 \<longrightarrow> fetchMulti_rows env qre pkRows s = (Inr rows, s') \<longrightarrow>
      (\<exists>r. fetchMulti env qre pkRows limit s = (Inr r, s')
         \<and> Fields r = Some flds
         \<and> Rows r = (if 0 < sint limit \<and> nat (sint limit) < length rows
                      then take (nat (sint limit)) rows else rows)
         \<and> RowsAffected r = of_nat (length (Rows r))))
   \<and> (\<forall>r t. fetchMulti env qre pkRows limit s = (Inr r, t) \<longrightarrow>
         RowsAffected r = of_nat (length (Rows r)))"
proof (intro conjI impI allI)
  assume f: "plan_Fields (plan qre) = Some flds"
  { assume "pkRows = [] \<or> limit = 0"
    with f show "fetchMulti env qre pkRows limit s
        = (Inr \<lparr>Fields = Some flds, RowsAffected = 0, InsertId = 0, Rows = []\<rparr>, s)"
      by (auto simp: fetchMulti_def) }
  { assume ne: "pkRows \<noteq> []" "limit \<noteq> 0"
      and rows: "fetchMulti_rows env qre pkRows s = (Inr rows, s')"
    show "\<exists>r. fetchMulti env qre pkRows limit s = (Inr r, s')
         \<and> Fields r = Some flds
         \<and> Rows r = (if 0 < sint limit \<and> nat (sint limit) < length rows
                      then take (nat (sint limit)) rows else rows)
         \<and> RowsAffected r = of_nat (length (Rows r))"
      by (simp only: fetchMulti_result [OF f ne rows]) simp }
  { fix r t
    assume ret: "fetchMulti env qre pkRows limit s = (Inr r, t)"
    show "RowsAffected r = of_nat (length (Rows r))"
    proof (cases "pkRows = [] \<or> limit = 0")
      case True
      with f ret show ?thesis by (auto simp: fetchMulti_def)
    next
      case False
      then have ne: "pkRows \<noteq> []" "limit \<noteq> 0" by simp_all
      from fetchMulti_Inr_rows [OF f ne ret] obtain rows
        where rows: "fetchMulti_rows env qre pkRows s = (Inr rows, t)" ..
      from ret show ?thesis
        by (simp only: fetchMulti_result [OF f ne rows]) auto
    qed }
qed

lemma demo_fetchMulti_rows:
  "fst (fetchMulti_rows demo_select_env demo_qre [[SqlValue ''1''], [SqlValue ''2'']] demo_state)
     = Inr (replicate 7 [SqlValue ''x''])"
  by (simp add: fetchMulti_rows_def rc_lookup_def index0_Columns_def bv_new_def qFetch_def
      generateFinalSql_def bv_set_def deferred_def execSQLNoPanic_def emit_def
      AddRewrittenSql_def add_QuerySource_def demo_select_env_def demo_env_def demo_qre_def demo_plan_def
      demo_table_def demo_state_def demo_key_def demo_rows_def Let_def eval_nat_numeral)

theorem fetchMulti_limit_witness:
  "(\<exists>r t. fetchMulti demo_select_env demo_qre [[SqlValue ''1''], [SqlValue ''2'']] 2 demo_state = (Inr r, t)
       \<and> Rows r = [[SqlValue ''x''], [SqlValue ''x'']] \<and> RowsAffected r = 2)
   \<and> fetchMulti demo_select_env demo_qre [] 2 demo_state
       = (Inr \<lparr>Fields = Some [Field ''id'' 8], RowsAffected = 0, InsertId = 0, Rows = []\<rparr>,
          demo_state)"
proof -
  let ?pk = "[[SqlValue ''1''], [SqlValue ''2'']]"
  let ?t = "snd (fetchMulti_rows demo_select_env demo_qre ?pk demo_state)"
  have f: "plan_Fields (plan demo_qre) = Some [Field ''id'' 8]"
    by (simp add: demo_qre_def demo_plan_def)
  have rows: "fetchMulti_rows demo_select_env demo_qre ?pk demo_state
                = (Inr (replicate 7 [SqlValue ''x'']), ?t)"
    using demo_fetchMulti_rows by (simp add: prod_eq_iff)
  note inst = fetchMulti_limit [OF f, of ?pk 2 demo_select_env demo_state "replicate 7 [SqlValue ''x'']" ?t]
  from inst rows obtain r where
    "fetchMulti demo_select_env demo_qre ?pk 2 demo_state = (Inr r, ?t)"
    "Rows r = take 2 (replicate 7 [SqlValue ''x''])" "RowsAffected r = of_nat (length (Rows r))"
    by auto
  then have "\<exists>r t. fetchMulti demo_select_env demo_qre ?pk 2 demo_state = (Inr r, t)
       \<and> Rows r = [[SqlValue ''x''], [SqlValue ''x'']] \<and> RowsAffected r = 2"
    by (auto simp: eval_nat_numeral)
  moreover have "fetchMulti demo_select_env demo_qre [] 2 demo_state
       = (Inr \<lparr>Fields = Some [Field ''id'' 8], RowsAffected = 0, InsertId = 0, Rows = []\<rparr>,
          demo_state)"
    using fetchMulti_limit [OF f, of "[]" 2 demo_select_env demo_state] by simp
  ultimately show ?thesis by blast
qed

subsection \<open>Strict mode and PASS\_DML\<close>

lemma execs_append [simp]: "execs (xs @ ys) = execs xs @ execs ys" by (simp add: execs_def)
lemma execs_Nil [simp]: "execs [] = []" by (simp add: execs_def)
lemma execs_Cons [simp]: "execs (e # es) = (if is_Exec e then e # execs es else execs es)"
  by (simp add: execs_def)

lemma trace_add_QuerySource [simp]: "trace (add_QuerySource q s) = trace s"
  by (simp add: add_QuerySource_def)
lemma strictMode_emit [simp]: "strictMode (emit e s) = strictMode s" by (simp add: emit_def)
lemma maxResultSize_emit [simp]: "maxResultSize (emit e s) = maxResultSize s" by (simp add: emit_def)
lemma bvstore_emit [simp]: "bvstore (emit e s) = bvstore s" by (simp add: emit_def)
lemma maxResultSize_AddRewrittenSql [simp]: "maxResultSize (AddRewrittenSql q s) = maxResultSize s"
  by (simp add: AddRewrittenSql_def)
lemma strictMode_AddRewrittenSql [simp]: "strictMode (AddRewrittenSql q s) = strictMode s"
  by (simp add: AddRewrittenSql_def)
lemma bvstore_AddRewrittenSql [simp]: "bvstore (AddRewrittenSql q s) = bvstore s"
  by (simp add: AddRewrittenSql_def)

lemma checkPermissions_logStats:
  "checkPermissions env qre (s\<lparr>logStats := l\<rparr>)
     = (fst (checkPermissions env qre s), (snd (checkPermissions env qre s))\<lparr>logStats := l\<rparr>)"
  by (simp add: checkPermissions_def emit_def Let_def split: prod.splits action.splits option.splits)

lemma checkPermissions_frame:
  "trace (snd (checkPermissions env qre s)) = trace s \<or>
   (\<exists>m. trace (snd (checkPermissions env qre s)) = trace s @ [EvLogError m])"
  "strictMode (snd (checkPermissions env qre s)) = strictMode s"
  "maxResultSize (snd (checkPermissions env qre s)) = maxResultSize s"
  "bvstore (snd (checkPermissions env qre s)) = bvstore s"
  by (simp_all add: checkPermissions_def Let_def split: prod.splits action.splits option.splits)

lemma execs_checkPermissions [simp]:
  "execs (trace (snd (checkPermissions env qre s))) = execs (trace s)"
  using checkPermissions_frame(1) [of env qre s] by auto

lemma tableInvalidator_frame [simp]:
  "execs (trace (snd (tableInvalidator qre conn s))) = execs (trace s)"
  "strictMode (snd (tableInvalidator qre conn s)) = strictMode s"
  "maxResultSize (snd (tableInvalidator qre conn s)) = maxResultSize s"
  "bvstore (snd (tableInvalidator qre conn s)) = bvstore s"
  by (simp_all add: tableInvalidator_def split: option.splits)

lemma execs_Execute_stats [simp]:
  "execs (trace (Execute_stats env qre reply s)) = execs (trace s)"
  by (simp add: Execute_stats_def Let_def split: sum.splits)

text \<open>\<^verbatim>\<open>directFetch\<close> without a stream comment, when the template expands: one backend
  call, whose answer is the outcome.\<close>

lemma directFetch_Inr:
  assumes "GenerateQuery env q ((bvstore s bv)(''#maxLimit'' \<mapsto> BVInt64 (maxResultSize s + 1))) = Inr expanded"
  shows "\<exists>out s'. directFetch env conn q bv None s
            = ((case out of Inl e \<Rightarrow> Inl (PanicError e) | Inr r \<Rightarrow> Inr r), s')
          \<and> execs (trace s') = execs (trace s) @
              [EvExec conn (restoreTrailing env expanded
                              ((bvstore s bv)(''#maxLimit'' \<mapsto> BVInt64 (maxResultSize s + 1))))
                 (sint (maxResultSize s)) True out]"
  using assms
  by (auto simp: directFetch_def generateFinalSql_def execSQL_def execSQLNoPanic_def bv_set_def
      Let_def split: sum.splits intro!: exI)


lemma directFetch_frame [simp]:
  "strictMode (snd (directFetch env conn q bv bsc s)) = strictMode s"
  by (simp add: directFetch_def generateFinalSql_def execSQL_def execSQLNoPanic_def bv_set_def
      Let_def split: sum.splits prod.splits)

lemma pass_dml_in_transaction_strict:
  assumes "PlanId (plan qre) = PLAN_PASS_DML" and "fst (checkPermissions env qre s) = Inr ()"
    and "transactionID qre \<noteq> 0"
    and "txPool_Get env (trace (snd (checkPermissions env qre s))) (transactionID qre) = Inr c"
    and "strictMode s \<noteq> 0"
  shows "\<exists>s'. Execute env qre s
               = Some (Inl (PanicError (TabletError ErrFail ''DML too complex'')), s')
             \<and> execs (trace s') = execs (trace s)"
  using assms
  by (simp add: Execute_def Execute_body_def checkPermissions_logStats deferred_opt_def
      Execute_inTransaction_def NewTabletError_def checkPermissions_frame Let_def split_beta)

lemma pass_dml_in_transaction_pass:
  assumes "PlanId (plan qre) = PLAN_PASS_DML" and "fst (checkPermissions env qre s) = Inr ()"
    and "transactionID qre \<noteq> 0"
    and "txPool_Get env (trace (snd (checkPermissions env qre s))) (transactionID qre) = Inr c"
    and "strictMode s = 0"
    and "GenerateQuery env (FullQuery (plan qre))
           ((bvstore s (bindVars qre))(''#maxLimit'' \<mapsto> BVInt64 (maxResultSize s + 1)))
         = Inr expanded"
  shows "\<exists>out s'. Execute env qre s
               = Some ((case out of Inl e \<Rightarrow> Inl (PanicError e) | Inr r \<Rightarrow> Inr r), s')
             \<and> execs (trace s') = execs (trace s) @
                 [EvExec (Conn TxPool c)
                    (restoreTrailing env expanded
                       ((bvstore s (bindVars qre))(''#maxLimit'' \<mapsto> BVInt64 (maxResultSize s + 1))))
                    (sint (maxResultSize s)) True out]"
proof -
  let ?cp = "snd (checkPermissions env qre s)"
  let ?l = "(logStats s)\<lparr>OriginalSql := query qre, BindVariables := bindVars qre,
               TransactionID := transactionID qre,
               PlanType := PlanId_String env (PlanId (plan qre))\<rparr>"
  let ?conn = "Conn TxPool c"
  let ?s1 = "snd (tableInvalidator qre ?conn
                (emit (EvRecordQuery ?conn (query qre)) (emit (EvGet ?conn) (?cp\<lparr>logStats := ?l\<rparr>))))"
  have g: "GenerateQuery env (FullQuery (plan qre))
           ((bvstore ?s1 (bindVars qre))(''#maxLimit'' \<mapsto> BVInt64 (maxResultSize ?s1 + 1)))
         = Inr expanded"
    using assms(6) by (simp add: checkPermissions_frame)
  from directFetch_Inr [OF g, of "?conn"] obtain out s2 where
    df: "directFetch env ?conn (FullQuery (plan qre)) (bindVars qre) None ?s1
           = ((case out of Inl e \<Rightarrow> Inl (PanicError e) | Inr r \<Rightarrow> Inr r), s2)"
    and ex: "execs (trace s2) = execs (trace ?s1) @
              [EvExec ?conn (restoreTrailing env expanded
                  ((bvstore ?s1 (bindVars qre))(''#maxLimit'' \<mapsto> BVInt64 (maxResultSize ?s1 + 1))))
                 (sint (maxResultSize ?s1)) True out]"
    by blast
  have "Execute env qre s
          = Some ((case out of Inl e \<Rightarrow> Inl (PanicError e) | Inr r \<Rightarrow> Inr r),
                  Execute_stats env qre (case out of Inl e \<Rightarrow> Inl (PanicError e) | Inr r \<Rightarrow> Inr r)
                    (emit (EvRecycle ?conn) s2))"
    using assms(1-5) df
    by (simp add: Execute_def Execute_body_def checkPermissions_logStats deferred_opt_def
        Execute_inTransaction_def checkPermissions_frame Let_def split_beta)
  moreover have "execs (trace (Execute_stats env qre
                    (case out of Inl e \<Rightarrow> Inl (PanicError e) | Inr r \<Rightarrow> Inr r)
                    (emit (EvRecycle ?conn) s2)))
        = execs (trace s) @
                 [EvExec ?conn
                    (restoreTrailing env expanded
                       ((bvstore s (bindVars qre))(''#maxLimit'' \<mapsto> BVInt64 (maxResultSize s + 1))))
                    (sint (maxResultSize s)) True out]"
    using ex by (simp add: checkPermissions_frame)
  ultimately show ?thesis by blast
qed


lemma execDmlAutoCommit_pass_dml_strict:
  assumes "PlanId (plan qre) = PLAN_PASS_DML"
    and "txPool_Begin env (trace s) = Inr txid"
    and "txPool_Get env (trace s @ [EvBegin txid]) txid = Inr c"
    and "strictMode s \<noteq> 0"
  shows "\<exists>s'. execDmlAutoCommit env qre s
               = Some (Inl (PanicError (TabletError ErrFail ''DML too complex'')), s')
             \<and> execs (trace s') = execs (trace s)"
  using assms
  by (simp add: execDmlAutoCommit_def execDmlAutoCommit_body_def deferred_opt_def
      execDmlAutoCommit_dispatch_def NewTabletError_def Let_def split_beta)

lemma execDmlAutoCommit_pass_dml_pass:
  assumes "PlanId (plan qre) = PLAN_PASS_DML"
    and "txPool_Begin env (trace s) = Inr txid"
    and "txPool_Get env (trace s @ [EvBegin txid]) txid = Inr c"
    and "strictMode s = 0"
    and "GenerateQuery env (FullQuery (plan qre))
           ((bvstore s (bindVars qre))(''#maxLimit'' \<mapsto> BVInt64 (maxResultSize s + 1)))
         = Inr expanded"
  shows "\<exists>out reply s'. execDmlAutoCommit env qre s = Some (reply, s')
             \<and> execs (trace s') = execs (trace s) @
                 [EvExec (Conn TxPool c)
                    (restoreTrailing env expanded
                       ((bvstore s (bindVars qre))(''#maxLimit'' \<mapsto> BVInt64 (maxResultSize s + 1))))
                    (sint (maxResultSize s)) True out]
             \<and> (\<forall>e. out = Inl e \<longrightarrow> reply = Inl (PanicError e))
             \<and> (\<forall>r. out = Inr r \<longrightarrow>
                    reply = Inr r \<or> (\<exists>p tr. qe_Commit env tr txid = Some p \<and> reply = Inl p))"
proof -
  let ?conn = "Conn TxPool c"
  let ?s1 = "snd (tableInvalidator qre ?conn
                (emit (EvGet ?conn) (AddRewrittenSql ''begin'' (emit (EvBegin txid) s))))"
  have g: "GenerateQuery env (FullQuery (plan qre))
           ((bvstore ?s1 (bindVars qre))(''#maxLimit'' \<mapsto> BVInt64 (maxResultSize ?s1 + 1)))
         = Inr expanded"
    using assms(5) by simp
  from directFetch_Inr [OF g, of "?conn"] obtain out s2 where
    df: "directFetch env ?conn (FullQuery (plan qre)) (bindVars qre) None ?s1
           = ((case out of Inl e \<Rightarrow> Inl (PanicError e) | Inr r \<Rightarrow> Inr r), s2)"
    and ex: "execs (trace s2) = execs (trace ?s1) @
              [EvExec ?conn (restoreTrailing env expanded
                  ((bvstore ?s1 (bindVars qre))(''#maxLimit'' \<mapsto> BVInt64 (maxResultSize ?s1 + 1))))
                 (sint (maxResultSize ?s1)) True out]"
    by blast
  have body: "execDmlAutoCommit_body env qre txid (AddRewrittenSql ''begin'' (emit (EvBegin txid) s))
      = Some ((case out of Inl e \<Rightarrow> Inl (PanicError e) | Inr r \<Rightarrow> Inr r), emit (EvRecycle ?conn) s2)"
    using assms(1-4) df
    by (simp add: execDmlAutoCommit_body_def deferred_opt_def execDmlAutoCommit_dispatch_def
        Let_def split_beta)
  from ex have ex': "execs (trace (emit (EvRecycle ?conn) s2)) = execs (trace s) @
                 [EvExec ?conn
                    (restoreTrailing env expanded
                       ((bvstore s (bindVars qre))(''#maxLimit'' \<mapsto> BVInt64 (maxResultSize s + 1))))
                    (sint (maxResultSize s)) True out]"
    by simp
  show ?thesis
  proof (cases out)
    case (Inl e)
    with body assms(2) ex' show ?thesis
      by (auto simp: execDmlAutoCommit_def intro!: exI)
  next
    case (Inr r)
    show ?thesis
    proof (cases "qe_Commit env (trace (emit (EvRecycle ?conn) s2)) txid")
      case None
      with Inr body assms(2) ex' show ?thesis
        by (auto simp: execDmlAutoCommit_def intro!: exI)
    next
      case (Some p)
      with Inr body assms(2) ex' show ?thesis
        by (auto simp: execDmlAutoCommit_def intro!: exI)
    qed
  qed
qed


lemma Execute_autocommit:
  assumes "PlanId (plan qre) = PLAN_PASS_DML" and "fst (checkPermissions env qre s) = Inr ()"
    and "transactionID qre = 0" and "enableAutoCommit env"
  shows "Execute env qre s =
           (case execDmlAutoCommit env qre
                   ((snd (checkPermissions env qre s))
                      \<lparr>logStats := (logStats s)\<lparr>OriginalSql := query qre, BindVariables := bindVars qre,
                           TransactionID := transactionID qre,
                           PlanType := PlanId_String env (PlanId (plan qre))\<rparr>\<rparr>) of
              None \<Rightarrow> None
            | Some (reply, s2) \<Rightarrow> Some (reply, Execute_stats env qre reply s2))"
  using assms
  by (simp add: Execute_def Execute_body_def checkPermissions_logStats Execute_noTransaction_def
      Let_def)


text \<open>
  Claim C4. A \<^verbatim>\<open>PLAN_PASS_DML\<close> request that passes the policy gate and gets its pinned
  connection, inside a transaction or on the auto-commit path (auto-commit enabled,
  \<^verbatim>\<open>Begin\<close> and \<^verbatim>\<open>txPool.Get\<close> answering): with strict mode non-zero, \<^verbatim>\<open>Execute\<close> panics
  with the \<^verbatim>\<open>ErrFail\<close> error \<^verbatim>\<open>DML too complex\<close> and makes no \<^verbatim>\<open>conn.Exec\<close> call (what the
  transaction pool sends for \<^verbatim>\<open>Begin\<close> and \<^verbatim>\<open>Rollback\<close> is its own);
  with strict mode zero and a template that expands, it makes exactly one \<^verbatim>\<open>conn.Exec\<close>
  call, of the final SQL of \<^verbatim>\<open>FullQuery\<close> on the pinned connection, and the reply is
  what the backend answered: its error as the panic, or its result (on the auto-commit
  path unless \<^verbatim>\<open>Commit\<close> then panics).
\<close>

theorem pass_dml_strict_mode:
  assumes "PlanId (plan qre) = PLAN_PASS_DML" and "fst (checkPermissions env qre s) = Inr ()"
    and "(transactionID qre \<noteq> 0
            \<and> txPool_Get env (trace (snd (checkPermissions env qre s))) (transactionID qre) = Inr c)
         \<or> (transactionID qre = 0 \<and> enableAutoCommit env
            \<and> txPool_Begin env (trace (snd (checkPermissions env qre s))) = Inr txid
            \<and> txPool_Get env (trace (snd (checkPermissions env qre s)) @ [EvBegin txid]) txid = Inr c)"
  shows "(strictMode s \<noteq> 0 \<longrightarrow>
            (\<exists>s'. Execute env qre s
                     = Some (Inl (PanicError (TabletError ErrFail ''DML too complex'')), s')
                 \<and> execs (trace s') = execs (trace s)))
       \<and> (strictMode s = 0 \<longrightarrow>
            GenerateQuery env (FullQuery (plan qre))
              ((bvstore s (bindVars qre))(''#maxLimit'' \<mapsto> BVInt64 (maxResultSize s + 1)))
              = Inr expanded \<longrightarrow>
            (\<exists>out reply s'. Execute env qre s = Some (reply, s')
                 \<and> execs (trace s') = execs (trace s) @
                      [EvExec (Conn TxPool c)
                         (restoreTrailing env expanded
                            ((bvstore s (bindVars qre))
                               (''#maxLimit'' \<mapsto> BVInt64 (maxResultSize s + 1))))
                         (sint (maxResultSize s)) True out]
                 \<and> (\<forall>e. out = Inl e \<longrightarrow> reply = Inl (PanicError e))
                 \<and> (\<forall>r. out = Inr r \<longrightarrow>
                        reply = Inr r
                        \<or> (transactionID qre = 0
                            \<and> (\<exists>p tr. qe_Commit env tr txid = Some p \<and> reply = Inl p)))))"
proof (intro conjI impI)
  let ?sx = "(snd (checkPermissions env qre s))
               \<lparr>logStats := (logStats s)\<lparr>OriginalSql := query qre, BindVariables := bindVars qre,
                   TransactionID := transactionID qre,
                   PlanType := PlanId_String env (PlanId (plan qre))\<rparr>\<rparr>"
  { assume strict: "strictMode s \<noteq> 0"
    show "\<exists>s'. Execute env qre s
                     = Some (Inl (PanicError (TabletError ErrFail ''DML too complex'')), s')
                 \<and> execs (trace s') = execs (trace s)"
    proof (cases "transactionID qre = 0")
      case False
      with assms strict show ?thesis
        by (intro pass_dml_in_transaction_strict) auto
    next
      case True
      with assms(3) have ac: "enableAutoCommit env"
        and b: "txPool_Begin env (trace ?sx) = Inr txid"
        and g: "txPool_Get env (trace ?sx @ [EvBegin txid]) txid = Inr c" by auto
      from strict have "strictMode ?sx \<noteq> 0" by (simp add: checkPermissions_frame)
      from execDmlAutoCommit_pass_dml_strict [OF assms(1) b g this] obtain s'
        where "execDmlAutoCommit env qre ?sx
                 = Some (Inl (PanicError (TabletError ErrFail ''DML too complex'')), s')"
          and "execs (trace s') = execs (trace ?sx)" by blast
      then show ?thesis
        by (simp add: Execute_autocommit [OF assms(1,2) True ac])
    qed }
  { assume pass: "strictMode s = 0"
      and gq: "GenerateQuery env (FullQuery (plan qre))
              ((bvstore s (bindVars qre))(''#maxLimit'' \<mapsto> BVInt64 (maxResultSize s + 1)))
              = Inr expanded"
    show "\<exists>out reply s'. Execute env qre s = Some (reply, s')
                 \<and> execs (trace s') = execs (trace s) @
                      [EvExec (Conn TxPool c)
                         (restoreTrailing env expanded
                            ((bvstore s (bindVars qre))
                               (''#maxLimit'' \<mapsto> BVInt64 (maxResultSize s + 1))))
                         (sint (maxResultSize s)) True out]
                 \<and> (\<forall>e. out = Inl e \<longrightarrow> reply = Inl (PanicError e))
                 \<and> (\<forall>r. out = Inr r \<longrightarrow>
                        reply = Inr r
                        \<or> (transactionID qre = 0
                            \<and> (\<exists>p tr. qe_Commit env tr txid = Some p \<and> reply = Inl p)))"
    proof (cases "transactionID qre = 0")
      case False
      with assms(3) have g: "txPool_Get env (trace (snd (checkPermissions env qre s)))
                               (transactionID qre) = Inr c" by auto
      from pass_dml_in_transaction_pass [OF assms(1,2) False g pass gq] obtain out s'
        where "Execute env qre s
               = Some ((case out of Inl e \<Rightarrow> Inl (PanicError e) | Inr r \<Rightarrow> Inr r), s')"
          and "execs (trace s') = execs (trace s) @
                 [EvExec (Conn TxPool c)
                    (restoreTrailing env expanded
                       ((bvstore s (bindVars qre))(''#maxLimit'' \<mapsto> BVInt64 (maxResultSize s + 1))))
                    (sint (maxResultSize s)) True out]" by blast
      then show ?thesis
        by (intro exI [of _ out] exI [of _ "case out of Inl e \<Rightarrow> Inl (PanicError e) | Inr r \<Rightarrow> Inr r"]
            exI [of _ s']) auto
    next
      case True
      with assms(3) have ac: "enableAutoCommit env"
        and b: "txPool_Begin env (trace ?sx) = Inr txid"
        and g: "txPool_Get env (trace ?sx @ [EvBegin txid]) txid = Inr c" by auto
      from pass have p': "strictMode ?sx = 0" by (simp add: checkPermissions_frame)
      from gq have gq': "GenerateQuery env (FullQuery (plan qre))
           ((bvstore ?sx (bindVars qre))(''#maxLimit'' \<mapsto> BVInt64 (maxResultSize ?sx + 1)))
         = Inr expanded" by (simp add: checkPermissions_frame)
      from execDmlAutoCommit_pass_dml_pass [OF assms(1) b g p' gq'] obtain out reply s'
        where r: "execDmlAutoCommit env qre ?sx = Some (reply, s')"
          and e: "execs (trace s') = execs (trace ?sx) @
                 [EvExec (Conn TxPool c)
                    (restoreTrailing env expanded
                       ((bvstore ?sx (bindVars qre))(''#maxLimit'' \<mapsto> BVInt64 (maxResultSize ?sx + 1))))
                    (sint (maxResultSize ?sx)) True out]"
          and o: "\<forall>e. out = Inl e \<longrightarrow> reply = Inl (PanicError e)"
          and o': "\<forall>r. out = Inr r \<longrightarrow>
                    reply = Inr r \<or> (\<exists>p tr. qe_Commit env tr txid = Some p \<and> reply = Inl p)"
        by (elim exE conjE) (rule that)
      from r have "Execute env qre s = Some (reply, Execute_stats env qre reply s')"
        by (simp add: Execute_autocommit [OF assms(1,2) True ac])
      moreover from e have "execs (trace (Execute_stats env qre reply s')) = execs (trace s) @
                      [EvExec (Conn TxPool c)
                         (restoreTrailing env expanded
                            ((bvstore s (bindVars qre))
                               (''#maxLimit'' \<mapsto> BVInt64 (maxResultSize s + 1))))
                         (sint (maxResultSize s)) True out]"
        by (simp add: checkPermissions_frame)
      ultimately show ?thesis using o o' True by blast
    qed }
qed


theorem pass_dml_strict_mode_witness:
  "(\<exists>s'. Execute demo_env (demo_qre\<lparr>plan := demo_plan\<lparr>PlanId := PLAN_PASS_DML\<rparr>\<rparr>) demo_state
            = Some (Inl (PanicError (TabletError ErrFail ''DML too complex'')), s')
        \<and> execs (trace s') = [])
   \<and> (\<exists>out reply s'.
          Execute demo_env (demo_qre\<lparr>transactionID := 5, plan := demo_plan\<lparr>PlanId := PLAN_PASS_DML\<rparr>\<rparr>)
              (demo_state\<lparr>strictMode := 0\<rparr>) = Some (reply, s')
        \<and> execs (trace s') = [EvExec (Conn TxPool 1) ''full'' 10000 True out])"
proof -
  let ?q0 = "demo_qre\<lparr>plan := demo_plan\<lparr>PlanId := PLAN_PASS_DML\<rparr>\<rparr>"
  let ?q5 = "demo_qre\<lparr>transactionID := 5, plan := demo_plan\<lparr>PlanId := PLAN_PASS_DML\<rparr>\<rparr>"
  let ?s0 = "demo_state\<lparr>strictMode := 0\<rparr>"
  have a: "\<exists>s'. Execute demo_env ?q0 demo_state
            = Some (Inl (PanicError (TabletError ErrFail ''DML too complex'')), s')
        \<and> execs (trace s') = []"
    using pass_dml_strict_mode [of ?q0 demo_env demo_state 1 42 "''full''"]
    by (simp add: checkPermissions_def demo_qre_def demo_env_def demo_state_def)
  have b: "\<exists>out reply s'. Execute demo_env ?q5 ?s0 = Some (reply, s')
        \<and> execs (trace s') = [EvExec (Conn TxPool 1) ''full'' 10000 True out]"
    using pass_dml_strict_mode [of ?q5 demo_env ?s0 1 42 "''full''"]
    by (simp add: checkPermissions_def demo_qre_def demo_env_def demo_state_def demo_plan_def) blast
  from a b show ?thesis by blast
qed

subsection \<open>Connection balance\<close>

text \<open>Every method leaves the number of outstanding checkouts as it found it, for every
  class of connections.\<close>

lemma outstanding_append [simp]:
  "outstanding P (xs @ ys) = outstanding P xs + outstanding P ys"
  by (simp add: outstanding_def gets_def recycles_def)

lemma outstanding_Nil [simp]: "outstanding P [] = 0"
  by (simp add: outstanding_def gets_def recycles_def)

lemma outstanding_Cons [simp]:
  "outstanding P (e # es) =
     (if is_Get P e then 1 else 0) - (if is_Recycle P e then 1 else 0) + outstanding P es"
  by (simp add: outstanding_def gets_def recycles_def)

lemma trace_generateFinalSql [simp]:
  "trace (snd (generateFinalSql env q bv bsc s)) = trace s"
  by (simp add: generateFinalSql_def Let_def split: sum.splits)

lemma out_execSQLNoPanic [simp]:
  "outstanding P (trace (snd (execSQLNoPanic env conn sql w s))) = outstanding P (trace s)"
  by (simp add: execSQLNoPanic_def Let_def)

lemma out_execSQL [simp]:
  "outstanding P (trace (snd (execSQL env conn sql w s))) = outstanding P (trace s)"
  by (simp add: execSQL_def split_beta split: sum.splits)

lemma out_directFetch [simp]:
  "outstanding P (trace (snd (directFetch env conn q bv bsc s))) = outstanding P (trace s)"
  by (simp add: directFetch_def split_beta split: sum.splits)

lemma out_fullFetch [simp]:
  "outstanding P (trace (snd (fullFetch env conn q bv bsc s))) = outstanding P (trace s)"
  by (simp add: fullFetch_def split_beta split: sum.splits)

lemma out_getConn:
  "outstanding P (trace (snd (getConn env pool s))) =
     outstanding P (trace s) + (case fst (getConn env pool s) of Inr c \<Rightarrow> if P c then 1 else 0 | Inl _ \<Rightarrow> 0)"
  by (simp add: getConn_def split: sum.splits)

lemma out_qFetch [simp]:
  "outstanding P (trace (snd (qFetch env q bv s))) = outstanding P (trace s)"
  by (simp add: qFetch_def deferred_def Let_def split_beta split: sum.splits)

lemma out_checkPermissions [simp]:
  "outstanding P (trace (snd (checkPermissions env qre s))) = outstanding P (trace s)"
  by (simp add: checkPermissions_def Let_def split: prod.splits action.splits option.splits)

lemma out_execDDL [simp]:
  "outstanding P (trace (snd (execDDL env qre s))) = outstanding P (trace s)"
  by (simp add: execDDL_def deferred_def Let_def split_beta split: sum.splits)

lemma out_mustVerify [simp]:
  "outstanding P (trace (snd (mustVerify env s))) = outstanding P (trace s)"
  by (simp add: mustVerify_def Let_def)

lemma trace_bv_new [simp]: "trace (snd (bv_new m s)) = trace s"
  by (simp add: bv_new_def)

lemma out_spotCheck [simp]:
  "outstanding P (trace (snd (spotCheck env qre rc pk s))) = outstanding P (trace s)"
  by (simp add: spotCheck_def Let_def split_beta split: sum.splits)

lemma out_fetchMulti_hits [simp]:
  "outstanding P (trace (snd (fetchMulti_hits env qre rcs pks rows missing hits s)))
     = outstanding P (trace s)"
proof (induction pks arbitrary: rows missing hits s)
  case Nil
  show ?case by simp
next
  case (Cons a pks)
  obtain pk key where a: "a = (pk, key)" by (cases a)
  show ?case
    unfolding a
    by (simp add: Cons.IH Let_def split_beta split: option.splits sum.splits)
qed

lemma out_fetchMulti_fill [simp]:
  "outstanding P (trace (snd (fetchMulti_fill env qre ti rcs dbrows rows s)))
     = outstanding P (trace s)"
  by (induction dbrows arbitrary: rows s) (simp_all add: Let_def)

lemma out_fetchMulti_rows [simp]:
  "outstanding P (trace (snd (fetchMulti_rows env qre pkRows s))) = outstanding P (trace s)"
  by (simp add: fetchMulti_rows_def Let_def split_beta split: option.splits sum.splits)

lemma out_fetchMulti [simp]:
  "outstanding P (trace (snd (fetchMulti env qre pkRows limit s))) = outstanding P (trace s)"
  by (simp add: fetchMulti_def Let_def split_beta split: option.splits sum.splits)



lemma out_directFetch_eq:
  "directFetch env conn q bv bsc s = (r, s') \<Longrightarrow> outstanding P (trace s') = outstanding P (trace s)"
  using out_directFetch [of P env conn q bv bsc s] by simp

text \<open>A reflexive and transitive relation between states that every batch keeps holds
  between the start of the batch loop and its end, when it ends.\<close>

lemma execDMLPKRows_loop_rel:
  assumes run: "execDMLPKRows_loop env qre conn pkRows sl maxRows i result s = Some y"
    and refl: "\<And>s. R s s"
    and trans: "\<And>a b c. R a b \<Longrightarrow> R b c \<Longrightarrow> R a c"
    and step: "\<And>conn q bv bsc k v s. R s (snd (directFetch env conn q bv bsc (bv_set bv k v s)))"
  shows "R s (snd y)"
proof -
  have step': "R s s'" if "directFetch env conn q bv bsc (bv_set bv k v s) = (r, s')"
    for conn q bv bsc k v s r s'
    using step [of s conn q bv bsc k v] that by simp
  have "env = env \<longrightarrow> R s (snd y)"
  proof (rule execDMLPKRows_loop.raw_induct
      [where P = "\<lambda>env' qre conn pkRows sl maxRows i result s y.
                    env' = env \<longrightarrow> R s (snd y)", OF _ run], goal_cases)
    case (1 f env' qre conn pkRows sl maxRows i result s y)
    show ?case
    proof
      assume e: "env' = env"
      have IH: "R s (snd y)" if "f env qre conn pkRows sl maxRows i result s = Some y"
        for qre conn pkRows sl maxRows i result s y
        using "1"(1) [OF that] by simp
      from "1"(2) show "R s (snd y)"
        unfolding e
        by (auto simp: Let_def refl step split: if_splits sum.splits option.splits prod.splits
            dest!: IH step' elim: trans)
    qed
  qed
  then show ?thesis by simp
qed

lemma out_execDMLPKRows_loop:
  assumes "execDMLPKRows_loop env qre conn pkRows sl maxRows i result s = Some y"
  shows "outstanding P (trace (snd y)) = outstanding P (trace s)"
  by (rule execDMLPKRows_loop_rel
        [where R = "\<lambda>s s'. outstanding P (trace s') = outstanding P (trace s)", OF assms])
     simp_all

lemma out_execPKIN [simp]:
  "outstanding P (trace (snd (execPKIN env qre s))) = outstanding P (trace s)"
  by (simp add: execPKIN_def split: sum.splits)

lemma out_execSubquery [simp]:
  "outstanding P (trace (snd (execSubquery env qre s))) = outstanding P (trace s)"
  by (simp add: execSubquery_def split_beta split: sum.splits)

lemma out_execDirect [simp]:
  "outstanding P (trace (snd (execDirect env qre conn s))) = outstanding P (trace s)"
  by (simp add: execDirect_def split_beta split: option.splits sum.splits)

lemma out_execSelect [simp]:
  "outstanding P (trace (snd (execSelect env qre s))) = outstanding P (trace s)"
  by (simp add: execSelect_def getConn_def deferred_def split_beta split: option.splits sum.splits)

lemma out_execInsertPKRows [simp]:
  "outstanding P (trace (snd (execInsertPKRows env qre conn pkRows s))) = outstanding P (trace s)"
  by (simp add: execInsertPKRows_def split: sum.splits)

lemma out_execInsertPK [simp]:
  "outstanding P (trace (snd (execInsertPK env qre conn s))) = outstanding P (trace s)"
  by (simp add: execInsertPK_def split: sum.splits)

lemma out_execInsertSubquery [simp]:
  "outstanding P (trace (snd (execInsertSubquery env qre conn s))) = outstanding P (trace s)"
  by (simp add: execInsertSubquery_def Let_def split_beta
      split: sum.splits list.splits option.splits)

lemma trace_fold_emit:
  "trace (fold (\<lambda>x. emit (h x)) xs s) = trace s @ map h xs"
  by (induction xs arbitrary: s) simp_all

lemma out_deletes [simp]: "outstanding P (map (\<lambda>pk. EvDelete iv (k pk)) pkRows) = 0"
  by (induction pkRows) simp_all

lemma out_execDMLPKRows:
  assumes "execDMLPKRows env qre conn pkRows invalidator s = Some y"
  shows "outstanding P (trace (snd y)) = outstanding P (trace s)"
proof (cases "length pkRows = 0")
  case True
  with assms show ?thesis by (auto simp: execDMLPKRows_def)
next
  case False
  show ?thesis
  proof (cases "buildSecondaryList env (TableInfo (plan qre)) pkRows (SecondaryPKValues (plan qre))
                  (bvstore s (bindVars qre))")
    case (Inl err)
    with False assms show ?thesis by (auto simp: execDMLPKRows_def)
  next
    case (Inr sl)
    with False assms obtain z where
      loop: "execDMLPKRows_loop env qre conn pkRows sl (sint (maxDMLRows s)) 0 empty_result s = Some z"
      by (auto simp: execDMLPKRows_def split: option.splits)
    from out_execDMLPKRows_loop [OF loop]
    have "outstanding P (trace (snd z)) = outstanding P (trace s)" .
    with False Inr assms loop show ?thesis
      by (auto simp: execDMLPKRows_def trace_fold_emit split: sum.splits option.splits prod.splits)
  qed
qed

lemma out_execDMLPK:
  assumes "execDMLPK env qre conn invalidator s = Some y"
  shows "outstanding P (trace (snd y)) = outstanding P (trace s)"
  using assms
  by (auto simp: execDMLPK_def split: sum.splits dest: out_execDMLPKRows [where P = P])

lemma out_execDMLSubquery:
  assumes "execDMLSubquery env qre conn invalidator s = Some y"
  shows "outstanding P (trace (snd y)) = outstanding P (trace s)"
  using assms
  by (auto simp: execDMLSubquery_def split: sum.splits prod.splits
      dest!: out_execDMLPKRows [where P = P] out_directFetch_eq [where P = P])

lemma out_setting:
  assumes "\<And>a t. outstanding P (trace (snd (store a t))) = outstanding P (trace t)"
  shows "outstanding P (trace (snd (setting arg store s))) = outstanding P (trace s)"
  using assms by (simp add: setting_def split: sum.splits)

lemma out_execSet [simp]:
  "outstanding P (trace (snd (execSet env qre s))) = outstanding P (trace s)"
  by (simp add: execSet_def Let_def out_setting getConn_def deferred_def split_beta
      split: sum.splits)

lemma out_tableInvalidator [simp]:
  "outstanding P (trace (snd (tableInvalidator qre conn s))) = outstanding P (trace s)"
  by (simp add: tableInvalidator_def split: option.splits)


lemma out_execDmlAutoCommit_dispatch:
  assumes "execDmlAutoCommit_dispatch env qre conn s = Some y"
  shows "outstanding P (trace (snd y)) = outstanding P (trace s)"
proof (cases "PlanId (plan qre)")
  case PLAN_DML_PK
  with assms show ?thesis
    by (auto simp: execDmlAutoCommit_dispatch_def split_beta dest!: out_execDMLPK [where P = P])
next
  case PLAN_DML_SUBQUERY
  with assms show ?thesis
    by (auto simp: execDmlAutoCommit_dispatch_def split_beta dest!: out_execDMLSubquery [where P = P])
qed (use assms in \<open>auto simp: execDmlAutoCommit_dispatch_def split_beta split: if_splits\<close>)

lemma out_execDmlAutoCommit_body:
  assumes "execDmlAutoCommit_body env qre txid s = Some y"
  shows "outstanding P (trace (snd y)) = outstanding P (trace s)"
  using assms
  by (auto simp: execDmlAutoCommit_body_def deferred_opt_def
      split: sum.splits option.splits dest!: out_execDmlAutoCommit_dispatch [where P = P])

lemma out_execDmlAutoCommit:
  assumes "execDmlAutoCommit env qre s = Some y"
  shows "outstanding P (trace (snd y)) = outstanding P (trace s)"
  using assms
  by (auto simp: execDmlAutoCommit_def
      split: sum.splits option.splits dest!: out_execDmlAutoCommit_body [where P = P])

lemma out_Execute_inTransaction:
  assumes "Execute_inTransaction env qre conn s = Some y"
  shows "outstanding P (trace (snd y)) = outstanding P (trace s)"
proof (cases "PlanId (plan qre)")
  case PLAN_DML_PK
  with assms show ?thesis
    by (auto simp: Execute_inTransaction_def split_beta dest!: out_execDMLPK [where P = P])
next
  case PLAN_DML_SUBQUERY
  with assms show ?thesis
    by (auto simp: Execute_inTransaction_def split_beta dest!: out_execDMLSubquery [where P = P])
qed (use assms in \<open>auto simp: Execute_inTransaction_def split_beta split: if_splits\<close>)

lemma out_Execute_noTransaction:
  assumes "Execute_noTransaction env qre s = Some y"
  shows "outstanding P (trace (snd y)) = outstanding P (trace s)"
proof (cases "PlanId (plan qre)")
  case PLAN_OTHER
  with assms show ?thesis
    by (auto simp: Execute_noTransaction_def getConn_def deferred_def split_beta
        split: sum.splits if_splits)
qed (use assms in \<open>auto simp: Execute_noTransaction_def split: if_splits
        dest!: out_execDmlAutoCommit [where P = P]\<close>)

lemma out_Execute_body:
  assumes "Execute_body env qre s = Some y"
  shows "outstanding P (trace (snd y)) = outstanding P (trace s)"
proof (cases "checkPermissions env qre s")
  case (Pair r s1)
  then have s1: "outstanding P (trace s1) = outstanding P (trace s)"
    using out_checkPermissions [of P env qre s] by simp
  from assms Pair s1 show ?thesis
    by (auto simp: Execute_body_def deferred_opt_def
        split: sum.splits if_splits option.splits
        dest!: out_Execute_inTransaction [where P = P] out_Execute_noTransaction [where P = P])
qed

lemma out_Execute_stats [simp]:
  "outstanding P (trace (Execute_stats env qre reply s)) = outstanding P (trace s)"
  by (simp add: Execute_stats_def Let_def split: sum.splits)

lemma out_Execute:
  assumes "Execute env qre s = Some (reply, s')"
  shows "outstanding P (trace s') = outstanding P (trace s)"
  using assms
  by (auto simp: Execute_def Let_def split: option.splits dest!: out_Execute_body [where P = P])


text \<open>
  Claim C1. When \<^verbatim>\<open>Execute\<close> ends, with a reply or with a panic, the connections it
  obtained from a pool or from the transaction pool (\<^verbatim>\<open>Get\<close> calls that handed one out)
  are as many as the \<^verbatim>\<open>Recycle\<close> calls it made; the same for \<^verbatim>\<open>qFetch\<close> on its own.
  This holds for every class \<open>P\<close> of connections: all of them, those of one pool, or a
  single connection, which is then recycled exactly as often as it was obtained.
\<close>

theorem connection_balance:
  "(Execute env qre s = Some (reply, s') \<longrightarrow>
      gets P (trace s') + recycles P (trace s) = recycles P (trace s') + gets P (trace s))
   \<and> gets P (trace (snd (qFetch env q bv s))) + recycles P (trace s)
       = recycles P (trace (snd (qFetch env q bv s))) + gets P (trace s)"
proof (intro conjI impI)
  assume "Execute env qre s = Some (reply, s')"
  from out_Execute [OF this, of P]
  show "gets P (trace s') + recycles P (trace s) = recycles P (trace s') + gets P (trace s)"
    by (simp add: outstanding_def)
next
  from out_qFetch [of P env q bv s]
  show "gets P (trace (snd (qFetch env q bv s))) + recycles P (trace s)
       = recycles P (trace (snd (qFetch env q bv s))) + gets P (trace s)"
    by (simp add: outstanding_def)
qed



lemma demo_Execute_trace:
  "map_option (\<lambda>(r, s). (r, trace s)) (Execute demo_env demo_qre demo_state) =
     Some (Inr \<lparr>Fields = None, RowsAffected = 45, InsertId = 0, Rows = []\<rparr>,
           [EvBegin 42, EvGet (Conn TxPool 1), EvDirtyKeys (Conn TxPool 1) ''t'',
            EvExec (Conn TxPool 1) ''outer12 /* _stream t */'' 10000 True (Inr (demo_affected 23)),
            EvExec (Conn TxPool 1) ''outer3 /* _stream t */'' 10000 True (Inr (demo_affected 22)),
            EvDelete (DirtyKeys (Conn TxPool 1) ''t'') ''1'',
            EvDelete (DirtyKeys (Conn TxPool 1) ''t'') ''2'',
            EvDelete (DirtyKeys (Conn TxPool 1) ''t'') ''3'',
            EvRecycle (Conn TxPool 1), EvCommit 42, EvQueryStats ''PLAN'',
            EvPlanAddStats 1 45 0, EvResultStats 0])"
  by (simp add: Execute_def Execute_body_def Execute_noTransaction_def Execute_stats_def
      checkPermissions_def execDmlAutoCommit_def execDmlAutoCommit_body_def
      execDmlAutoCommit_dispatch_def tableInvalidator_def deferred_opt_def execDMLPK_def
      execDMLPKRows_def execDMLPKRows_loop.simps index0_Columns_def directFetch_def
      generateFinalSql_def execSQL_def execSQLNoPanic_def bv_set_def emit_def AddRewrittenSql_def
      empty_result_def demo_env_def demo_qre_def demo_plan_def demo_table_def demo_state_def
      demo_key_def demo_affected_def Let_def)


theorem connection_balance_witness:
  "\<exists>reply s'. Execute demo_env demo_qre demo_state = Some (reply, s')
      \<and> gets (\<lambda>c. True) (trace s') = 1 \<and> recycles (\<lambda>c. True) (trace s') = 1"
proof -
  from demo_Execute_trace obtain reply s' where
    run: "Execute demo_env demo_qre demo_state = Some (reply, s')"
    and g: "gets (\<lambda>c. True) (trace s') = 1"
    by (auto simp: gets_def)
  from connection_balance [of demo_env demo_qre demo_state reply s' "\<lambda>c. True"] run g
  have "recycles (\<lambda>c. True) (trace s') = 1"
    by (simp add: demo_state_def gets_def recycles_def)
  with run g show ?thesis by blast
qed

subsection \<open>Auto-commit DML\<close>

lemma log_extends_refl [simp]: "log_extends s s" by (simp add: log_extends_def)


lemma log_extends_emit [simp]: "log_extends s (emit e t) = log_extends s t"
  by (simp add: log_extends_def emit_def)

lemma log_extends_bv_set [simp]: "log_extends s (bv_set r k v t) = log_extends s t"
  by (simp add: log_extends_def bv_set_def)

lemma log_extends_bv_set_left [simp]: "log_extends (bv_set r k v s) t = log_extends s t"
  by (simp add: log_extends_def bv_set_def)

lemma log_extends_emit_left [simp]: "log_extends (emit e s) t = log_extends s t"
  by (simp add: log_extends_def emit_def)







lemma log_fold_emit [simp]: "log_extends s (fold (\<lambda>x. emit (h x)) xs t) = log_extends s t"
  by (induction xs arbitrary: t) simp_all




lemma log_tableInvalidator [simp]:
  "log_extends s (snd (tableInvalidator qre conn t)) = log_extends s t"
  "log_extends (snd (tableInvalidator qre conn t)) u = log_extends t u"
  by (simp_all add: tableInvalidator_def split: option.splits)









subsection \<open>DML in batches\<close>

lemma batch_count_0 [simp]: "0 < b \<Longrightarrow> batch_count 0 b = 0"
  by (simp add: batch_count_def)

lemma batch_count_step:
  assumes "0 < b" "0 < m"
  shows "batch_count m b = Suc (batch_count (m - b) b)"
proof (cases "b \<le> m")
  case True
  then have "m + b - 1 = (m - b + b - 1) + b" using assms by simp
  moreover have "((m - b + b - 1) + b) div b = (m - b + b - 1) div b + 1"
    by (rule div_add_self2) (use assms in simp)
  ultimately have "(m + b - 1) div b = (m - b + b - 1) div b + 1"
    by simp
  then show ?thesis by (simp add: batch_count_def)
next
  case False
  then have "b \<le> m + b - 1" "m + b - 1 < 2 * b" using assms by simp_all
  then have "(m + b - 1) div b = 1"
    by (simp add: div_nat_eqI)
  with False assms show ?thesis by (simp add: batch_count_def)
qed

lemma take_stop:
  assumes "i < length xs"
  shows "take (nat (if int (length xs) \<le> int i + int B then int (length xs) else int i + int B) - i)
           (drop i xs) = take B (drop i xs)"
proof (cases "int (length xs) \<le> int i + int B")
  case True
  then have "length (drop i xs) \<le> B" by simp
  with True show ?thesis by simp
next
  case False
  then have "nat (int i + int B) - i = B" by simp
  with False show ?thesis by simp
qed

lemma loop_done:
  "\<not> i < length pkRows \<Longrightarrow>
   execDMLPKRows_loop env qre conn pkRows sl maxRows i acc t = Some (Inr acc, t)"
  by (subst execDMLPKRows_loop.simps) simp

lemma loop_step:
  assumes "i < length pkRows" "0 < B"
    and "execDMLPKRows_loop env qre conn pkRows sl (int B) i acc t = Some (Inr result, t')"
  shows "\<exists>cols bsc r t1.
           index0_Columns (plan qre) = Inr cols
         \<and> directFetch env conn (OuterQuery (plan qre)) (bindVars qre) bsc
               (bv_set (bindVars qre) ''#pk''
                  (TupleEqualityList cols (take B (drop i pkRows))) t) = (Inr r, t1)
         \<and> execDMLPKRows_loop env qre conn pkRows sl (int B) (i + B)
               (acc\<lparr>RowsAffected := RowsAffected acc + RowsAffected r\<rparr>) t1
             = Some (Inr result, t')"
proof -
  have n: "nat (int i + int B) = i + B" by simp
  have nostop: "\<not> (if int (length pkRows) \<le> int i + int B then int (length pkRows)
                    else int i + int B) < int i"
    using assms(1) by simp
  from assms(3) show ?thesis
    apply (subst (asm) execDMLPKRows_loop.simps)
    apply (simp only: assms(1) if_True Let_def nostop if_False take_stop [OF assms(1)] n)
    apply (auto split: sum.splits option.splits prod.splits if_splits)
    done
qed


text \<open>What one successful \<^verbatim>\<open>directFetch\<close> does to the state.\<close>

lemma directFetch_Inr_effect:
  assumes "directFetch env conn q bv bsc t = (Inr r, t1)"
  shows "\<exists>sql. fst (generateFinalSql env q bv bsc t) = Inr sql
          \<and> trace t1 = trace t @ [EvExec conn sql (sint (maxResultSize t)) True (Inr r)]"
    and "maxResultSize t1 = maxResultSize t"
    and "\<And>k. k \<noteq> ''#maxLimit'' \<Longrightarrow> bvstore t1 bv k = bvstore t bv k"
  using assms
  by (auto simp: directFetch_def generateFinalSql_def execSQL_def execSQLNoPanic_def bv_set_def
      Let_def emit_def AddRewrittenSql_def split: sum.splits)

text \<open>The final SQL depends on the map only through the keys other than \<^verbatim>\<open>#maxLimit\<close>,
  and on the state only through that map and \<^verbatim>\<open>maxResultSize\<close>.\<close>

lemma generateFinalSql_cong:
  assumes "maxResultSize t = maxResultSize s"
    and "\<And>k. k \<noteq> ''#pk'' \<Longrightarrow> k \<noteq> ''#maxLimit'' \<Longrightarrow> bvstore t bv k = bvstore s bv k"
  shows "fst (generateFinalSql env q bv bsc (bv_set bv ''#pk'' v t))
       = fst (generateFinalSql env q bv bsc (bv_set bv ''#pk'' v s))"
proof -
  have "(bvstore t bv)(''#pk'' \<mapsto> v, ''#maxLimit'' \<mapsto> m)
      = (bvstore s bv)(''#pk'' \<mapsto> v, ''#maxLimit'' \<mapsto> m)" for m
    using assms(2) by (auto simp: fun_eq_iff)
  with assms(1) show ?thesis
    by (simp add: generateFinalSql_def bv_set_def Let_def split: sum.splits)
qed

lemma loop_batches:
  assumes "0 < B"
    and "execDMLPKRows_loop env qre conn pkRows sl (int B) i acc t = Some (Inr result, t')"
    and "maxResultSize t = maxResultSize s"
    and "\<And>k. k \<noteq> ''#pk'' \<Longrightarrow> k \<noteq> ''#maxLimit'' \<Longrightarrow>
            bvstore t (bindVars qre) k = bvstore s (bindVars qre) k"
    and "index0_Columns (plan qre) = Inr cols"
  shows "\<exists>xs. length xs = batch_count (length pkRows - i) B
          \<and> trace t' = trace t @ map (\<lambda>(sql, r). EvExec conn sql (sint (maxResultSize s)) True (Inr r)) xs
          \<and> (\<forall>k<length xs. \<exists>bsc.
                fst (generateFinalSql env (OuterQuery (plan qre)) (bindVars qre) bsc
                       (bv_set (bindVars qre) ''#pk''
                          (TupleEqualityList cols (take B (drop (i + k * B) pkRows))) s))
                  = Inr (fst (xs ! k)))
          \<and> RowsAffected result = RowsAffected acc + sum_list (map (\<lambda>(sql, r). RowsAffected r) xs)"
  using assms(2-4)
proof (induction "length pkRows - i" arbitrary: i acc t rule: less_induct)
  case less
  show ?case
  proof (cases "i < length pkRows")
    case False
    with less.prems(1) have "result = acc" "t' = t"
      by (simp_all add: loop_done)
    with False assms(1) show ?thesis
      by (intro exI [of _ "[]"]) simp
  next
    case True
    from loop_step [OF True assms(1) less.prems(1)] assms(5) obtain bsc r t1 where
      df: "directFetch env conn (OuterQuery (plan qre)) (bindVars qre) bsc
               (bv_set (bindVars qre) ''#pk''
                  (TupleEqualityList cols (take B (drop i pkRows))) t) = (Inr r, t1)"
      and rec: "execDMLPKRows_loop env qre conn pkRows sl (int B) (i + B)
               (acc\<lparr>RowsAffected := RowsAffected acc + RowsAffected r\<rparr>) t1
             = Some (Inr result, t')"
      by auto
    let ?t0 = "bv_set (bindVars qre) ''#pk'' (TupleEqualityList cols (take B (drop i pkRows))) t"
    from directFetch_Inr_effect(1) [OF df] obtain sql where
      sql: "fst (generateFinalSql env (OuterQuery (plan qre)) (bindVars qre) bsc ?t0) = Inr sql"
      and tr: "trace t1 = trace t @ [EvExec conn sql (sint (maxResultSize s)) True (Inr r)]"
      using less.prems(2) by (auto simp: bv_set_def)
    have sql': "fst (generateFinalSql env (OuterQuery (plan qre)) (bindVars qre) bsc
                       (bv_set (bindVars qre) ''#pk''
                          (TupleEqualityList cols (take B (drop i pkRows))) s)) = Inr sql"
      using sql generateFinalSql_cong [OF less.prems(2), of "bindVars qre"] less.prems(3)
      by simp
    have m1: "maxResultSize t1 = maxResultSize s"
      using directFetch_Inr_effect(2) [OF df] less.prems(2) by (simp add: bv_set_def)
    have v1: "bvstore t1 (bindVars qre) k = bvstore s (bindVars qre) k"
      if "k \<noteq> ''#pk''" "k \<noteq> ''#maxLimit''" for k
      using directFetch_Inr_effect(3) [OF df that(2)] less.prems(3) [OF that] that
      by (simp add: bv_set_def)
    have "length pkRows - (i + B) < length pkRows - i"
      using True assms(1) by simp
    from less.hyps [OF this rec m1 v1] obtain xs where
      len: "length xs = batch_count (length pkRows - (i + B)) B"
      and trx: "trace t' = trace t1 @ map (\<lambda>(sql, r). EvExec conn sql (sint (maxResultSize s)) True (Inr r)) xs"
      and sqls: "\<forall>k<length xs. \<exists>bsc.
                fst (generateFinalSql env (OuterQuery (plan qre)) (bindVars qre) bsc
                       (bv_set (bindVars qre) ''#pk''
                          (TupleEqualityList cols (take B (drop (i + B + k * B) pkRows))) s))
                  = Inr (fst (xs ! k))"
      and sum: "RowsAffected result = RowsAffected (acc\<lparr>RowsAffected := RowsAffected acc + RowsAffected r\<rparr>)
                  + sum_list (map (\<lambda>(sql, r). RowsAffected r) xs)"
      by blast
    let ?xs = "(sql, r) # xs"
    have "length ?xs = batch_count (length pkRows - i) B"
      using len batch_count_step [OF assms(1), of "length pkRows - i"] True by simp
    moreover have "trace t' = trace t @ map (\<lambda>(sql, r). EvExec conn sql (sint (maxResultSize s)) True (Inr r)) ?xs"
      using trx tr by simp
    moreover have "\<forall>k<length ?xs. \<exists>bsc.
                fst (generateFinalSql env (OuterQuery (plan qre)) (bindVars qre) bsc
                       (bv_set (bindVars qre) ''#pk''
                          (TupleEqualityList cols (take B (drop (i + k * B) pkRows))) s))
                  = Inr (fst (?xs ! k))"
    proof (intro allI impI)
      fix k assume k: "k < length ?xs"
      show "\<exists>bsc. fst (generateFinalSql env (OuterQuery (plan qre)) (bindVars qre) bsc
                       (bv_set (bindVars qre) ''#pk''
                          (TupleEqualityList cols (take B (drop (i + k * B) pkRows))) s))
                  = Inr (fst (?xs ! k))"
      proof (cases k)
        case 0
        with sql' show ?thesis by auto
      next
        case (Suc j)
        with k have "j < length xs" by simp
        with sqls have "\<exists>bsc. fst (generateFinalSql env (OuterQuery (plan qre)) (bindVars qre) bsc
                       (bv_set (bindVars qre) ''#pk''
                          (TupleEqualityList cols (take B (drop (i + B + j * B) pkRows))) s))
                  = Inr (fst (xs ! j))" by blast
        with Suc show ?thesis by (simp add: add.assoc)
      qed
    qed
    moreover have "RowsAffected result = RowsAffected acc + sum_list (map (\<lambda>(sql, r). RowsAffected r) ?xs)"
      using sum by (simp add: add.assoc)
    ultimately show ?thesis by blast
  qed
qed


lemma loop_terminates:
  assumes "0 < B"
  shows "\<exists>y. execDMLPKRows_loop env qre conn pkRows sl (int B) i acc t = Some y"
proof (induction "length pkRows - i" arbitrary: i acc t sl rule: less_induct)
  case less
  show ?case
  proof (cases "i < length pkRows")
    case False
    then show ?thesis by (simp add: loop_done)
  next
    case True
    have IH: "\<exists>a b. execDMLPKRows_loop env qre conn pkRows sl' (int B) (i + B) acc' t1 = Some (a, b)"
      for acc' t1 sl'
    proof -
      have "length pkRows - (i + B) < length pkRows - i" using True assms by simp
      from less.hyps [OF this] obtain y where
        "execDMLPKRows_loop env qre conn pkRows sl' (int B) (i + B) acc' t1 = Some y" by blast
      then show ?thesis by (cases y) simp
    qed
    have n: "nat (int i + int B) = i + B" by simp
    have nostop: "\<not> (if int (length pkRows) \<le> int i + int B then int (length pkRows)
                    else int i + int B) < int i"
      using True by simp
    show ?thesis
      apply (subst execDMLPKRows_loop.simps)
      apply (simp only: True if_True Let_def nostop if_False n)
      apply (auto split: sum.splits option.splits prod.splits if_splits)
              apply (rule IH)+
      done
  qed
qed

lemma directFetch_succeeds:
  assumes "\<And>tr c sql m w. \<exists>r. conn_Exec env tr c sql m w = Inr r"
    and "\<And>m. \<exists>e. GenerateQuery env q m = Inr e"
  shows "\<exists>r t1. directFetch env conn q bv bsc t = (Inr r, t1)"
proof -
  let ?m = "(bvstore t bv)(''#maxLimit'' \<mapsto> BVInt64 (maxResultSize t + 1))"
  from assms(2) obtain e where e: "GenerateQuery env q ?m = Inr e" by blast
  let ?sql = "restoreTrailing env (case bsc of None \<Rightarrow> e | Some c \<Rightarrow> e @ c) ?m"
  from assms(1) obtain r where
    "conn_Exec env (trace t) conn ?sql (sint (maxResultSize t)) True = Inr r" by blast
  with e show ?thesis
    by (simp add: directFetch_def generateFinalSql_def execSQL_def execSQLNoPanic_def bv_set_def
        Let_def)
qed

lemma loop_succeeds:
  assumes "0 < B"
    and "\<And>tr c sql m w. \<exists>r. conn_Exec env tr c sql m w = Inr r"
    and "\<And>m. \<exists>e. GenerateQuery env (OuterQuery (plan qre)) m = Inr e"
    and "index0_Columns (plan qre) = Inr cols"
    and "case sl of None \<Rightarrow> True | Some l \<Rightarrow> length pkRows \<le> length l"
  shows "\<exists>result t'. execDMLPKRows_loop env qre conn pkRows sl (int B) i acc t = Some (Inr result, t')"
proof (induction "length pkRows - i" arbitrary: i acc t rule: less_induct)
  case less
  show ?case
  proof (cases "i < length pkRows")
    case False
    then show ?thesis by (simp add: loop_done)
  next
    case True
    have n: "nat (int i + int B) = i + B" by simp
    let ?stop = "if int (length pkRows) \<le> int i + int B then int (length pkRows) else int i + int B"
    have nostop: "\<not> ?stop < int i" using True by simp
    have sec: "\<exists>sb. (case sl of None \<Rightarrow> Inr None
                     | Some l \<Rightarrow> if int (length l) < ?stop
                                then Inl (PanicRuntime ''slice bounds out of range'')
                                else Inr (Some (take (nat ?stop - i) (drop i l)))) = Inr sb"
      using assms(5) by (auto split: option.splits)
    then obtain sb where sb: "(case sl of None \<Rightarrow> Inr None
                     | Some l \<Rightarrow> if int (length l) < ?stop
                                then Inl (PanicRuntime ''slice bounds out of range'')
                                else Inr (Some (take (nat ?stop - i) (drop i l)))) = Inr sb" ..
    let ?batch = "take (nat ?stop - i) (drop i pkRows)"
    from directFetch_succeeds [OF assms(2,3)] obtain r t1 where
      df: "directFetch env conn (OuterQuery (plan qre)) (bindVars qre)
             (buildStreamComment env (TableInfo (plan qre)) ?batch sb)
             (bv_set (bindVars qre) ''#pk'' (TupleEqualityList cols ?batch) t) = (Inr r, t1)"
      by blast
    have "length pkRows - (i + B) < length pkRows - i" using True assms(1) by simp
    from less.hyps [OF this] obtain result t' where
      "execDMLPKRows_loop env qre conn pkRows sl (int B) (i + B)
         (acc\<lparr>RowsAffected := RowsAffected acc + RowsAffected r\<rparr>) t1 = Some (Inr result, t')"
      by blast
    with df sb show ?thesis
      apply (subst execDMLPKRows_loop.simps)
      apply (simp only: True if_True Let_def nostop if_False n assms(4) sum.case prod.case)
      apply blast
      done
  qed
qed


text \<open>
  Claim C2. For a non-empty list of \<open>N\<close> PK rows and \<^verbatim>\<open>maxDMLRows = B \<ge> 1\<close>,
  \<^verbatim>\<open>execDMLPKRows\<close> always comes back. When it returns a result, the trace has gained
  exactly \<open>\<lceil>N/B\<rceil>\<close> backend executions on the connection, all successful, followed (with
  an invalidator) by one \<^verbatim>\<open>Delete\<close> for the key of each of the \<open>N\<close> rows, in order, and
  nothing else; the statement of the \<open>k\<close>-th execution is the final SQL of \<^verbatim>\<open>OuterQuery\<close>
  with \<^verbatim>\<open>#pk\<close> bound to the \<^verbatim>\<open>TupleEqualityList\<close> of the first index's columns over the
  \<open>k\<close>-th batch of \<open>B\<close> rows; and \<^verbatim>\<open>RowsAffected\<close> of the result is the sum (in \<^verbatim>\<open>uint64\<close>)
  of what the executions reported. It does return a result when the backend and the
  template expansion answer, the table has an index and the secondary list, if any, is as
  long as the row list. A panic in a batch ends the loop at that batch.
\<close>

theorem execDMLPKRows_batches:
  assumes "pkRows \<noteq> []" and "1 \<le> sint (maxDMLRows s)"
  shows "(\<exists>y. execDMLPKRows env qre conn pkRows invalidator s = Some y)
    \<and> (\<forall>result s'. execDMLPKRows env qre conn pkRows invalidator s = Some (Inr result, s') \<longrightarrow>
         (\<exists>cols xs.
            index0_Columns (plan qre) = Inr cols
          \<and> length xs = batch_count (length pkRows) (nat (sint (maxDMLRows s)))
          \<and> trace s' = trace s
               @ map (\<lambda>(sql, r). EvExec conn sql (sint (maxResultSize s)) True (Inr r)) xs
               @ (case invalidator of None \<Rightarrow> []
                  | Some iv \<Rightarrow> map (\<lambda>pk. EvDelete iv (buildKey env pk)) pkRows)
          \<and> (\<forall>k<length xs. \<exists>bsc.
                fst (generateFinalSql env (OuterQuery (plan qre)) (bindVars qre) bsc
                       (bv_set (bindVars qre) ''#pk''
                          (TupleEqualityList cols
                             (batch_of (nat (sint (maxDMLRows s))) k pkRows)) s))
                  = Inr (fst (xs ! k)))
          \<and> RowsAffected result = sum_list (map (\<lambda>(sql, r). RowsAffected r) xs)))
    \<and> ((\<forall>tr c sql m w. \<exists>r. conn_Exec env tr c sql m w = Inr r) \<longrightarrow>
         (\<forall>m. \<exists>e. GenerateQuery env (OuterQuery (plan qre)) m = Inr e) \<longrightarrow>
         index0_Columns (plan qre) = Inr cols0 \<longrightarrow>
         buildSecondaryList env (TableInfo (plan qre)) pkRows (SecondaryPKValues (plan qre))
             (bvstore s (bindVars qre)) = Inr sl \<longrightarrow>
         (case sl of None \<Rightarrow> True | Some l \<Rightarrow> length pkRows \<le> length l) \<longrightarrow>
         (\<exists>result s'. execDMLPKRows env qre conn pkRows invalidator s = Some (Inr result, s')))"
proof (intro conjI allI impI)
  let ?B = "nat (sint (maxDMLRows s))"
  from assms(2) have B: "0 < ?B" and iB: "sint (maxDMLRows s) = int ?B" by simp_all
  from assms(1) have ne: "length pkRows \<noteq> 0" by simp
  assume ex: "\<forall>tr c sql m w. \<exists>r. conn_Exec env tr c sql m w = Inr r"
    and gq: "\<forall>m. \<exists>e. GenerateQuery env (OuterQuery (plan qre)) m = Inr e"
    and cols: "index0_Columns (plan qre) = Inr cols0"
    and sl: "buildSecondaryList env (TableInfo (plan qre)) pkRows (SecondaryPKValues (plan qre))
             (bvstore s (bindVars qre)) = Inr sl"
    and len: "case sl of None \<Rightarrow> True | Some l \<Rightarrow> length pkRows \<le> length l"
  from ex have ex': "\<exists>r. conn_Exec env tr c sql m w = Inr r" for tr c sql m w by blast
  from gq have gq': "\<exists>e. GenerateQuery env (OuterQuery (plan qre)) m = Inr e" for m by blast
  from loop_succeeds [OF B ex' gq' cols len, of conn 0 empty_result s] obtain result s1 where
    "execDMLPKRows_loop env qre conn pkRows sl (sint (maxDMLRows s)) 0 empty_result s
       = Some (Inr result, s1)"
    unfolding iB [symmetric] by blast
  with ne sl show "\<exists>result s'. execDMLPKRows env qre conn pkRows invalidator s = Some (Inr result, s')"
    by (simp add: execDMLPKRows_def split: option.splits)
next
  let ?B = "nat (sint (maxDMLRows s))"
  from assms(2) have B: "0 < ?B" and iB: "sint (maxDMLRows s) = int ?B" by simp_all
  from assms(1) have ne: "length pkRows \<noteq> 0" by simp
  show "\<exists>y. execDMLPKRows env qre conn pkRows invalidator s = Some y"
  proof (cases "buildSecondaryList env (TableInfo (plan qre)) pkRows (SecondaryPKValues (plan qre))
                  (bvstore s (bindVars qre))")
    case (Inl err)
    with ne show ?thesis by (simp add: execDMLPKRows_def)
  next
    case (Inr sl)
    from loop_terminates [OF B, of env qre conn pkRows sl 0 empty_result s] obtain y where
      "execDMLPKRows_loop env qre conn pkRows sl (sint (maxDMLRows s)) 0 empty_result s = Some y"
      unfolding iB [symmetric] by blast
    with ne Inr show ?thesis
      by (cases y) (simp add: execDMLPKRows_def split: sum.splits option.splits)
  qed
next
  let ?B = "nat (sint (maxDMLRows s))"
  from assms(2) have B: "0 < ?B" and iB: "sint (maxDMLRows s) = int ?B" by simp_all
  from assms(1) have ne: "length pkRows \<noteq> 0" and pos: "0 < length pkRows" by simp_all
  fix result s'
  assume run: "execDMLPKRows env qre conn pkRows invalidator s = Some (Inr result, s')"
  from run ne obtain sl s1 where
    loop: "execDMLPKRows_loop env qre conn pkRows sl (int ?B) 0 empty_result s
             = Some (Inr result, s1)"
    and fin: "s' = (case invalidator of None \<Rightarrow> s1
                    | Some iv \<Rightarrow> fold (\<lambda>pk. emit (EvDelete iv (buildKey env pk))) pkRows s1)"
    unfolding iB [symmetric]
    by (auto simp: execDMLPKRows_def split: sum.splits option.splits prod.splits)
  from loop_step [OF pos B loop] obtain cols where cols: "index0_Columns (plan qre) = Inr cols"
    by blast
  from loop_batches [OF B loop refl refl cols] obtain xs where
    len: "length xs = batch_count (length pkRows - 0) ?B"
    and tr: "trace s1 = trace s @ map (\<lambda>(sql, r). EvExec conn sql (sint (maxResultSize s)) True (Inr r)) xs"
    and sqls: "\<forall>k<length xs. \<exists>bsc.
                fst (generateFinalSql env (OuterQuery (plan qre)) (bindVars qre) bsc
                       (bv_set (bindVars qre) ''#pk''
                          (TupleEqualityList cols (take ?B (drop (0 + k * ?B) pkRows))) s))
                  = Inr (fst (xs ! k))"
    and sum: "RowsAffected result = RowsAffected empty_result + sum_list (map (\<lambda>(sql, r). RowsAffected r) xs)"
    by blast
  have "trace s' = trace s
               @ map (\<lambda>(sql, r). EvExec conn sql (sint (maxResultSize s)) True (Inr r)) xs
               @ (case invalidator of None \<Rightarrow> []
                  | Some iv \<Rightarrow> map (\<lambda>pk. EvDelete iv (buildKey env pk)) pkRows)"
    using fin tr by (simp add: trace_fold_emit split: option.splits)
  moreover from sum have "RowsAffected result = sum_list (map (\<lambda>(sql, r). RowsAffected r) xs)"
    by (simp add: empty_result_def)
  ultimately show "\<exists>cols xs.
            index0_Columns (plan qre) = Inr cols
          \<and> length xs = batch_count (length pkRows) (nat (sint (maxDMLRows s)))
          \<and> trace s' = trace s
               @ map (\<lambda>(sql, r). EvExec conn sql (sint (maxResultSize s)) True (Inr r)) xs
               @ (case invalidator of None \<Rightarrow> []
                  | Some iv \<Rightarrow> map (\<lambda>pk. EvDelete iv (buildKey env pk)) pkRows)
          \<and> (\<forall>k<length xs. \<exists>bsc.
                fst (generateFinalSql env (OuterQuery (plan qre)) (bindVars qre) bsc
                       (bv_set (bindVars qre) ''#pk''
                          (TupleEqualityList cols
                             (batch_of (nat (sint (maxDMLRows s))) k pkRows)) s))
                  = Inr (fst (xs ! k)))
          \<and> RowsAffected result = sum_list (map (\<lambda>(sql, r). RowsAffected r) xs)"
    using cols len sqls by (intro exI [of _ cols] exI [of _ xs]) (simp add: batch_of_def)
qed


theorem execDMLPKRows_batches_witness:
  "\<exists>result s' xs.
      execDMLPKRows demo_env demo_qre (Conn TxPool 1)
          [[SqlValue ''1''], [SqlValue ''2''], [SqlValue ''3'']]
          (Some (DirtyKeys (Conn TxPool 1) ''t'')) demo_state = Some (Inr result, s')
    \<and> length xs = 2
    \<and> trace s' = map (\<lambda>(sql, r). EvExec (Conn TxPool 1) sql 10000 True (Inr r)) xs
                   @ [EvDelete (DirtyKeys (Conn TxPool 1) ''t'') ''1'',
                      EvDelete (DirtyKeys (Conn TxPool 1) ''t'') ''2'',
                      EvDelete (DirtyKeys (Conn TxPool 1) ''t'') ''3'']
    \<and> RowsAffected result = sum_list (map (\<lambda>(sql, r). RowsAffected r) xs)"
proof -
  let ?pk = "[[SqlValue ''1''], [SqlValue ''2''], [SqlValue ''3'']]"
  let ?conn = "Conn TxPool 1"
  let ?iv = "Some (DirtyKeys ?conn ''t'')"
  have ne: "?pk \<noteq> []" by simp
  have b: "1 \<le> sint (maxDMLRows demo_state)" by (simp add: demo_state_def)
  note inst = execDMLPKRows_batches [OF ne b, of demo_env demo_qre ?conn ?iv "[''id'']" None]
  have "\<exists>result s'. execDMLPKRows demo_env demo_qre ?conn ?pk ?iv demo_state = Some (Inr result, s')"
    using inst [THEN conjunct2, THEN conjunct2]
    by (simp add: demo_env_def demo_qre_def demo_plan_def demo_table_def index0_Columns_def
        split: parsed_query.splits)
  then obtain result s' where
    run: "execDMLPKRows demo_env demo_qre ?conn ?pk ?iv demo_state = Some (Inr result, s')"
    by blast
  from inst [THEN conjunct2, THEN conjunct1, rule_format, OF run] obtain cols xs where
    "length xs = batch_count (length ?pk) (nat (sint (maxDMLRows demo_state)))"
    "trace s' = trace demo_state
               @ map (\<lambda>(sql, r). EvExec ?conn sql (sint (maxResultSize demo_state)) True (Inr r)) xs
               @ (case ?iv of None \<Rightarrow> []
                  | Some iv \<Rightarrow> map (\<lambda>pk. EvDelete iv (buildKey demo_env pk)) ?pk)"
    "RowsAffected result = sum_list (map (\<lambda>(sql, r). RowsAffected r) xs)"
    by blast
  then have "length xs = 2
    \<and> trace s' = map (\<lambda>(sql, r). EvExec ?conn sql 10000 True (Inr r)) xs
                   @ [EvDelete (DirtyKeys ?conn ''t'') ''1'',
                      EvDelete (DirtyKeys ?conn ''t'') ''2'',
                      EvDelete (DirtyKeys ?conn ''t'') ''3'']
    \<and> RowsAffected result = sum_list (map (\<lambda>(sql, r). RowsAffected r) xs)"
    by (simp add: batch_count_def demo_state_def demo_env_def demo_key_def)
  with run show ?thesis by blast
qed

end
